theory Spec2Isabelle
  imports Main "HOL-Library.AList"
begin

section \<open>Property keys, values and plain objects\<close>

text \<open>
  A property key is a string or a symbol.  The two reserved marker keys of
  \<^verbatim>\<open>SubscriptProxy\<close> are the strings \<^verbatim>\<open>'*'\<close> (\<^verbatim>\<open>ALL\<close>) and \<^verbatim>\<open>'**'\<close> (\<^verbatim>\<open>GENFN\<close>).
\<close>

datatype key = StrKey string | SymKey nat

definition ALL_key :: key where
  "ALL_key = StrKey ''*''"

definition GENFN :: key where
  "GENFN = StrKey ''**''"

text \<open>
  The string \<^verbatim>\<open>'__proto__'\<close> names the one accessor property of \<^verbatim>\<open>Object.prototype\<close>: its
  getter returns the prototype of the object it is read on, and its setter changes that
  prototype.
\<close>

definition proto_key :: key where
  "proto_key = StrKey ''__proto__''"

text \<open>
  Function values.  \<open>UserFn f\<close> is an ordinary user function and \<open>UserGenFn f\<close> a user
  generator function (\<^verbatim>\<open>function*\<close>), both named by an identifier whose behaviour the store
  gives; \<open>Bound f\<close> is \<^verbatim>\<open>f.bind(obj)\<close>; \<open>ReflectGet\<close> is \<^verbatim>\<open>Reflect.get.bind(Reflect)\<close>;
  \<open>FallbackArrow h\<close> is the arrow function that \<^verbatim>\<open>applyTo\<close> wraps around the handler \<open>h\<close>
  when \<^verbatim>\<open>fallback\<close> is on.
\<close>

type_synonym fid = nat

datatype fn = UserFn fid | UserGenFn fid | Bound fn | ReflectGet | FallbackArrow fn

datatype jsval = VUndefined | VNull | VBool bool | VNum int | VStr string | VObj nat | VFn fn

datatype error = TypeError | Thrown jsval

type_synonym props = "(key \<times> jsval) list"

text \<open>
  A plain object, as \<^verbatim>\<open>{}\<close> and \<^verbatim>\<open>Object.fromEntries\<close> create it: its own data properties in
  creation order, and its prototype, which is \<^verbatim>\<open>Object.prototype\<close> until the \<^verbatim>\<open>__proto__\<close>
  setter makes it \<^verbatim>\<open>null\<close> or another object value.  The object value \<open>VObj 0\<close> is
  \<^verbatim>\<open>Object.prototype\<close> itself.
\<close>

datatype proto = ObjectProto | NullProto | ValueProto jsval

record plain_object =
  props_of :: props
  proto_of :: proto

definition empty_object :: plain_object where
  "empty_object = \<lparr>props_of = [], proto_of = ObjectProto\<rparr>"

definition Object_prototype_value :: jsval where
  "Object_prototype_value = VObj 0"

text \<open>\<^verbatim>\<open>x ?? y\<close> takes \<open>y\<close> when \<open>x\<close> is \<^verbatim>\<open>null\<close> or \<^verbatim>\<open>undefined\<close>; \<^verbatim>\<open>if (x)\<close> tests truthiness.\<close>

fun nullish :: "jsval \<Rightarrow> bool" where
  "nullish VUndefined = True"
| "nullish VNull = True"
| "nullish _ = False"

fun truthy :: "jsval \<Rightarrow> bool" where
  "truthy VUndefined = False"
| "truthy VNull = False"
| "truthy (VBool b) = b"
| "truthy (VNum n) = (n \<noteq> 0)"
| "truthy (VStr s) = (s \<noteq> [])"
| "truthy (VObj _) = True"
| "truthy (VFn _) = True"

text \<open>\<^verbatim>\<open>is.fn\<close>: \<^verbatim>\<open>typeof value === 'function'\<close>.\<close>

fun is_fn :: "jsval \<Rightarrow> bool" where
  "is_fn (VFn _) = True"
| "is_fn _ = False"

text \<open>
  \<^verbatim>\<open>value instanceof GeneratorFunction\<close>: the prototype chain of the function holds
  \<^verbatim>\<open>GeneratorFunction.prototype\<close>.  A bound function takes the prototype of the function it
  binds; an arrow function and the built-in \<^verbatim>\<open>Reflect.get\<close> have \<^verbatim>\<open>Function.prototype\<close>.
\<close>

fun instanceof_GeneratorFunction :: "fn \<Rightarrow> bool" where
  "instanceof_GeneratorFunction (UserGenFn _) = True"
| "instanceof_GeneratorFunction (Bound f) = instanceof_GeneratorFunction f"
| "instanceof_GeneratorFunction _ = False"

text \<open>\<^verbatim>\<open>is.genFn\<close>: \<^verbatim>\<open>is.fn(value) && value instanceof GeneratorFunction\<close>.\<close>

fun is_genFn :: "jsval \<Rightarrow> bool" where
  "is_genFn (VFn f) = instanceof_GeneratorFunction f"
| "is_genFn _ = False"

subsection \<open>Own keys in the engine's order\<close>

text \<open>
  The own properties of an object are kept in creation order.  \<^verbatim>\<open>Reflect.ownKeys\<close> lists the
  array indices first, in ascending numeric order, then the other strings and then the
  symbols, each in creation order.  An array index is the canonical decimal string of a
  number below \<open>2^32 - 1\<close>.
\<close>

definition is_digit :: "char \<Rightarrow> bool" where
  "is_digit c = (c \<in> set ''0123456789'')"

definition decimal :: "string \<Rightarrow> nat" where
  "decimal s = foldl (\<lambda>n c. 10 * n + (of_char c - 48)) 0 s"

fun array_index :: "key \<Rightarrow> nat option" where
  "array_index (SymKey _) = None"
| "array_index (StrKey []) = None"
| "array_index (StrKey (c # cs)) =
     (if list_all is_digit (c # cs) \<and> (cs = [] \<or> c \<noteq> CHR ''0'') \<and> decimal (c # cs) < 4294967295
      then Some (decimal (c # cs)) else None)"

fun is_string_key :: "key \<Rightarrow> bool" where
  "is_string_key (StrKey _) = True"
| "is_string_key (SymKey _) = False"

definition index_rank :: "key \<Rightarrow> nat" where
  "index_rank k = (case array_index k of Some n \<Rightarrow> n | None \<Rightarrow> 0)"

definition order_keys :: "key list \<Rightarrow> key list" where
  "order_keys ks =
     sort_key index_rank (filter (\<lambda>k. array_index k \<noteq> None) ks)
     @ filter (\<lambda>k. is_string_key k \<and> array_index k = None) ks
     @ filter (\<lambda>k. \<not> is_string_key k) ks"

definition own_keys :: "props \<Rightarrow> key list" where
  "own_keys ps = order_keys (map fst ps)"

definition Reflect_ownKeys :: "plain_object \<Rightarrow> key list" where
  "Reflect_ownKeys obj = own_keys (props_of obj)"

text \<open>\<^verbatim>\<open>Object.keys\<close>: the own enumerable string keys, in the same order.\<close>

definition Object_keys :: "plain_object \<Rightarrow> key list" where
  "Object_keys obj = filter is_string_key (Reflect_ownKeys obj)"

text \<open>
  \<^verbatim>\<open>Object.fromEntries\<close> creates a plain object and defines one own data property per pair,
  a later pair overwriting the value of an earlier one with the same key; defining a
  property does not run a setter, so that the key \<^verbatim>\<open>'__proto__'\<close> becomes an own property
  like any other.
\<close>

definition Object_fromEntries :: "(key \<times> jsval) list \<Rightarrow> plain_object" where
  "Object_fromEntries es =
     \<lparr>props_of = foldl (\<lambda>ps (k, v). AList.update k v ps) [] es, proto_of = ObjectProto\<rparr>"

definition own_value :: "props \<Rightarrow> key \<Rightarrow> jsval" where
  "own_value ps k = (case map_of ps k of Some v \<Rightarrow> v | None \<Rightarrow> VUndefined)"

section \<open>Objects, prototype chains and the store\<close>

record options =
  fallback :: bool
  evalFns :: bool
  except :: "key list"
  copyParentProto :: bool

text \<open>
  The \<^verbatim>\<open>SubscriptProxy\<close> instance that the three traps close over.  Its \<^verbatim>\<open>target\<close> and
  \<^verbatim>\<open>proxy\<close> fields are back references that no trap reads; they are left out.
\<close>

record SubscriptProxy =
  keyValueMap :: plain_object
  options :: options

text \<open>
  The objects of a target's prototype chain: \<^verbatim>\<open>null\<close> (the end of the chain), an ordinary
  object with its own data properties and its prototype, or a \<^verbatim>\<open>Proxy\<close> around a target
  object whose handler is the get/has/ownKeys handler of \<^verbatim>\<open>applyTo\<close> for an instance.  These
  objects are extensible and their properties are configurable, writable data properties,
  so that no proxy invariant of the engine constrains a trap's result.
\<close>

datatype obj = ONull | Ordinary props obj | ProxyObj obj SubscriptProxy

text \<open>
  The store is what property accesses depend on at the moment they run: what a user
  function returns (or throws) when called with \<open>(target, property, receiver)\<close>; the
  entries that iterating the iterator returned by a user function yields (each a
  two-element \<^verbatim>\<open>[key, value]\<close> array); the data properties of \<^verbatim>\<open>Object.prototype\<close>, which are
  writable; and, for an object or function value that the \<^verbatim>\<open>__proto__\<close> setter has made the
  prototype of a plain object, what reading a property through it gives, whether the
  \<^verbatim>\<open>__proto__\<close> accessor is inherited through it, and which keys name a read-only property
  on it or above it (as \<^verbatim>\<open>name\<close> and \<^verbatim>\<open>length\<close> do on a function).  Apart from \<^verbatim>\<open>__proto__\<close>
  these values carry data properties only.
\<close>

record store =
  user_call :: "fid \<Rightarrow> obj \<Rightarrow> key \<Rightarrow> obj \<Rightarrow> error + jsval"
  user_iterate :: "fid \<Rightarrow> (key \<times> jsval) list"
  Object_prototype :: props
  value_get :: "jsval \<Rightarrow> key \<Rightarrow> jsval"
  reaches_Object_prototype :: "jsval \<Rightarrow> bool"
  read_only :: "jsval \<Rightarrow> key \<Rightarrow> bool"

text \<open>
  What \<^verbatim>\<open>Object.prototype\<close> answers when a read reaches it from a plain object: for
  \<^verbatim>\<open>'__proto__'\<close> the getter returns the prototype of that object, which is
  \<^verbatim>\<open>Object.prototype\<close> itself; any other key is looked up among its data properties.
\<close>

definition Object_prototype_get :: "store \<Rightarrow> key \<Rightarrow> jsval option" where
  "Object_prototype_get st k =
     (if k = proto_key then Some Object_prototype_value else map_of (Object_prototype st) k)"

text \<open>\<^verbatim>\<open>obj[key]\<close> on a plain object: an own property, or else what its prototype answers.\<close>

definition prop_get :: "store \<Rightarrow> plain_object \<Rightarrow> key \<Rightarrow> jsval" where
  "prop_get st obj k =
     (case map_of (props_of obj) k of
        Some v \<Rightarrow> v
      | None \<Rightarrow>
          (case proto_of obj of
             ObjectProto \<Rightarrow> (case Object_prototype_get st k of Some v \<Rightarrow> v | None \<Rightarrow> VUndefined)
           | NullProto \<Rightarrow> VUndefined
           | ValueProto parent \<Rightarrow> value_get st parent k))"

text \<open>
  The \<^verbatim>\<open>__proto__\<close> setter ignores a value that is neither an object nor \<^verbatim>\<open>null\<close> and makes any
  other value the prototype.
\<close>

fun set_proto :: "jsval \<Rightarrow> proto \<Rightarrow> proto" where
  "set_proto VNull old = NullProto"
| "set_proto (VObj n) old = (if VObj n = Object_prototype_value then ObjectProto else ValueProto (VObj n))"
| "set_proto (VFn f) old = ValueProto (VFn f)"
| "set_proto v old = old"

text \<open>
  What the prototype chain decides about an assignment \<^verbatim>\<open>obj[key] = value\<close> when \<open>key\<close> is not
  an own property of \<open>obj\<close>: the inherited \<^verbatim>\<open>__proto__\<close> setter runs; or a read-only property of
  that name refuses the assignment; or an own data property is defined.
\<close>

datatype set_outcome = DefinesOwn | RunsProtoSetter | Refused

fun inherited_set :: "store \<Rightarrow> proto \<Rightarrow> key \<Rightarrow> set_outcome" where
  "inherited_set st ObjectProto k = (if k = proto_key then RunsProtoSetter else DefinesOwn)"
| "inherited_set st NullProto k = DefinesOwn"
| "inherited_set st (ValueProto parent) k =
     (if k = proto_key \<and> reaches_Object_prototype st parent then RunsProtoSetter
      else if read_only st parent k then Refused
      else DefinesOwn)"

text \<open>
  The assignment \<^verbatim>\<open>obj[key] = value\<close> on a plain object (the engine's \<^verbatim>\<open>[[Set]]\<close>).  An own
  property is updated.  Otherwise the chain decides: the \<^verbatim>\<open>__proto__\<close> setter changes the
  prototype and creates no own property; a refused assignment throws a \<^verbatim>\<open>TypeError\<close>, both
  in \<^verbatim>\<open>Object.assign\<close> and in the strict code of the class body.
\<close>

definition js_set :: "store \<Rightarrow> key \<Rightarrow> jsval \<Rightarrow> plain_object \<Rightarrow> error + plain_object" where
  "js_set st k v obj =
     (if k \<in> fst ` set (props_of obj) then Inr (obj\<lparr>props_of := AList.update k v (props_of obj)\<rparr>)
      else (case inherited_set st (proto_of obj) k of
              DefinesOwn \<Rightarrow> Inr (obj\<lparr>props_of := AList.update k v (props_of obj)\<rparr>)
            | RunsProtoSetter \<Rightarrow> Inr (obj\<lparr>proto_of := set_proto v (proto_of obj)\<rparr>)
            | Refused \<Rightarrow> Inl TypeError))"

text \<open>
  \<^verbatim>\<open>Object.assign(target, source)\<close> assigns the own enumerable properties of \<open>source\<close> to
  \<open>target\<close> one by one, in the own-key order of \<open>source\<close>, and stops at the first assignment
  that throws.
\<close>

fun assign_keys :: "store \<Rightarrow> props \<Rightarrow> key list \<Rightarrow> plain_object \<Rightarrow> error + plain_object" where
  "assign_keys st source [] obj = Inr obj"
| "assign_keys st source (k # ks) obj =
     (case js_set st k (own_value source k) obj of
        Inl e \<Rightarrow> Inl e
      | Inr obj' \<Rightarrow> assign_keys st source ks obj')"

definition Object_assign :: "store \<Rightarrow> plain_object \<Rightarrow> props \<Rightarrow> error + plain_object" where
  "Object_assign st target source = assign_keys st source (own_keys source) target"

text \<open>\<^verbatim>\<open>[...iterator()]\<close>: the entries a call of the function with no argument yields.\<close>

fun spread_call :: "store \<Rightarrow> fn \<Rightarrow> (key \<times> jsval) list" where
  "spread_call st (UserFn f) = user_iterate st f"
| "spread_call st (UserGenFn f) = user_iterate st f"
| "spread_call st (Bound f) = spread_call st f"
| "spread_call st ReflectGet = []"
| "spread_call st (FallbackArrow h) = []"

section \<open>The relevant keys\<close>

text \<open>\<^verbatim>\<open>SubscriptProxy._getRelevantKeys(instance)\<close>, returning \<open>(keys, genObject)\<close>.\<close>

definition getRelevantKeys :: "store \<Rightarrow> SubscriptProxy \<Rightarrow> key list \<times> plain_object" where
  "getRelevantKeys st inst =
     (let iterator = prop_get st (keyValueMap inst) GENFN;
          excepts = except (options inst);
          gentries = (case iterator of
                        VFn f \<Rightarrow> if is_genFn iterator then spread_call st f else []
                      | _ \<Rightarrow> []);
          genObject = Object_fromEntries gentries;
          keys = filter (\<lambda>key. key \<noteq> ALL_key \<and> key \<noteq> GENFN)
                   (filter (\<lambda>key. \<not> list_ex (\<lambda>exception. key = exception) excepts)
                      (Reflect_ownKeys (keyValueMap inst)))
                 @ Object_keys genObject
      in (keys, genObject))"

text \<open>
  The two parts that \<^verbatim>\<open>keys\<close> is concatenated from: the own keys of \<^verbatim>\<open>keyValueMap\<close> after
  the two filters, and the string keys of the generator snapshot.
\<close>

definition literal_keys :: "SubscriptProxy \<Rightarrow> key list" where
  "literal_keys inst =
     filter (\<lambda>key. key \<noteq> ALL_key \<and> key \<noteq> GENFN)
       (filter (\<lambda>key. \<not> list_ex (\<lambda>exception. key = exception) (except (options inst)))
          (Reflect_ownKeys (keyValueMap inst)))"

definition generator_keys :: "store \<Rightarrow> SubscriptProxy \<Rightarrow> key list" where
  "generator_keys st inst = Object_keys (snd (getRelevantKeys st inst))"

text \<open>The own properties of \<^verbatim>\<open>genObject\<close>, the generator snapshot.\<close>

definition snapshot :: "store \<Rightarrow> SubscriptProxy \<Rightarrow> props" where
  "snapshot st inst = props_of (snd (getRelevantKeys st inst))"

section \<open>Property access through the prototype chain\<close>

text \<open>
  \<open>js_get st obj P R\<close> is the engine's \<^verbatim>\<open>obj.[[Get]](P, R)\<close>: an own property wins, otherwise
  the prototype is asked, and a proxy answers with the result of its get trap, which is
  final.  \<open>call\<close> applies a function value to \<open>(target, property, receiver)\<close>, \<open>invoke\<close> is a
  call expression on any value (a \<^verbatim>\<open>TypeError\<close> when it is not a function), and \<open>get_trap\<close>
  is the \<^verbatim>\<open>get\<close> trap of \<^verbatim>\<open>applyTo\<close>.
\<close>

function js_get :: "store \<Rightarrow> obj \<Rightarrow> key \<Rightarrow> obj \<Rightarrow> error + jsval"
  and call :: "store \<Rightarrow> fn \<Rightarrow> obj \<Rightarrow> key \<Rightarrow> obj \<Rightarrow> error + jsval"
  and invoke :: "store \<Rightarrow> jsval \<Rightarrow> obj \<Rightarrow> key \<Rightarrow> obj \<Rightarrow> error + jsval"
  and get_trap :: "store \<Rightarrow> SubscriptProxy \<Rightarrow> obj \<Rightarrow> key \<Rightarrow> obj \<Rightarrow> error + jsval"
where
  "js_get st ONull P R = Inr VUndefined"
| "js_get st (Ordinary ps proto) P R =
     (case map_of ps P of Some v \<Rightarrow> Inr v | None \<Rightarrow> js_get st proto P R)"
| "js_get st (ProxyObj target inst) P R = get_trap st inst target P R"
| "call st (UserFn f) target property receiver = user_call st f target property receiver"
| "call st (UserGenFn f) target property receiver = user_call st f target property receiver"
| "call st (Bound f) target property receiver = call st f target property receiver"
| "call st ReflectGet target property receiver = js_get st target property receiver"
| "call st (FallbackArrow handler) target property receiver =
     (case call st handler target property receiver of
        Inl e \<Rightarrow> Inl e
      | Inr response \<Rightarrow>
          if response = VUndefined then js_get st target property receiver
          else Inr response)"
| "invoke st v target property receiver =
     (case v of VFn f \<Rightarrow> call st f target property receiver | _ \<Rightarrow> Inl TypeError)"
| "get_trap st inst target property receiver =
     (let handler = prop_get st (keyValueMap inst) ALL_key;
          (keys, genObject) = getRelevantKeys st inst
      in if property \<in> set keys then
           (let v = prop_get st (keyValueMap inst) property;
                value = (if nullish v then prop_get st genObject property else v)
            in if evalFns (options inst) \<and> is_fn value
               then invoke st value target property receiver
               else Inr value)
         else if truthy handler then invoke st handler target property receiver
         else Inr VUndefined)"
  by pat_completeness auto
termination
  by (relation "inv_image (less_than <*lex*> less_than <*lex*> less_than)
        (\<lambda>x. case x of
           Inl (Inl (st, obj, P, R)) \<Rightarrow> (size obj, 0::nat, 0::nat)
         | Inl (Inr (st, f, obj, P, R)) \<Rightarrow> (size obj, 1, size f)
         | Inr (Inl (st, v, obj, P, R)) \<Rightarrow> (size obj, 2, 0)
         | Inr (Inr (st, inst, obj, P, R)) \<Rightarrow> (size obj, 3, 0))")
     auto

text \<open>
  \<open>js_has st obj P\<close> is \<^verbatim>\<open>obj.[[HasProperty]](P)\<close>, which \<^verbatim>\<open>Reflect.has\<close> and the \<^verbatim>\<open>in\<close>
  operator run, with the \<^verbatim>\<open>has\<close> trap of \<^verbatim>\<open>applyTo\<close>.
\<close>

fun js_has :: "store \<Rightarrow> obj \<Rightarrow> key \<Rightarrow> bool"
  and has_trap :: "store \<Rightarrow> SubscriptProxy \<Rightarrow> obj \<Rightarrow> key \<Rightarrow> bool"
where
  "js_has st ONull P = False"
| "js_has st (Ordinary ps proto) P = (P \<in> fst ` set ps \<or> js_has st proto P)"
| "js_has st (ProxyObj target inst) P = has_trap st inst target P"
| "has_trap st inst target property =
     (let keys = fst (getRelevantKeys st inst)
      in property \<in> set keys \<or> js_has st target property)"

text \<open>
  The \<^verbatim>\<open>ownKeys\<close> trap, and \<^verbatim>\<open>Reflect.ownKeys(obj)\<close>: on a proxy the engine rejects a trap
  result with a duplicate entry.
\<close>

definition ownKeys_trap :: "store \<Rightarrow> SubscriptProxy \<Rightarrow> obj \<Rightarrow> key list" where
  "ownKeys_trap st inst target = (let keys = fst (getRelevantKeys st inst) in keys)"

fun js_ownKeys :: "store \<Rightarrow> obj \<Rightarrow> error + key list" where
  "js_ownKeys st ONull = Inl TypeError"
| "js_ownKeys st (Ordinary ps proto) = Inr (own_keys ps)"
| "js_ownKeys st (ProxyObj target inst) =
     (let keys = ownKeys_trap st inst target
      in if distinct keys then Inr keys else Inl TypeError)"

section \<open>Installing a layer\<close>

text \<open>
  What \<^verbatim>\<open>applyTo\<close> can be given as \<^verbatim>\<open>kvMapOrFunction\<close>: an array whose elements are all
  two-element \<^verbatim>\<open>[key, value]\<close> arrays; a function; a non-array object with a
  \<^verbatim>\<open>Symbol.iterator\<close> method (the method, and the object's own enumerable properties); any
  other object (its own enumerable properties); or a primitive, \<^verbatim>\<open>null\<close> or \<^verbatim>\<open>undefined\<close>.
\<close>

datatype source_input =
    PairArray "(key \<times> jsval) list"
  | Callable fn
  | Iterable fn props
  | PlainObject props
  | Primitive

text \<open>
  The \<^verbatim>\<open>options\<close> argument: each field is absent (\<open>None\<close>, which selects the default of the
  destructuring) or given.
\<close>

record options_input =
  fallback_in :: "bool option"
  evalFns_in :: "bool option"
  except_in :: "key list option"
  copyParentProto_in :: "bool option"

text \<open>
  The \<^verbatim>\<open>if\<close>/\<^verbatim>\<open>else if\<close> chain that fills \<^verbatim>\<open>keyValueMap\<close>, one equation per shape of the
  argument.  \<^verbatim>\<open>is.entries\<close> holds of a pair array; \<^verbatim>\<open>is.fn\<close> of a function;
  \<^verbatim>\<open>is.entryIterator\<close> of an iterable whose iterator yields a first element, which is a
  pair; \<^verbatim>\<open>is.obj\<close> of the remaining objects, also of an iterable that yields nothing at the
  time of the call.
\<close>

fun source_keyValueMap :: "store \<Rightarrow> source_input \<Rightarrow> error + plain_object" where
  "source_keyValueMap st (PairArray es) =
     Object_assign st empty_object (props_of (Object_fromEntries es))"
| "source_keyValueMap st (Callable f) = js_set st ALL_key (VFn f) empty_object"
| "source_keyValueMap st (Iterable m ps) =
     (if spread_call st m \<noteq> [] then js_set st GENFN (VFn (Bound m)) empty_object
      else Object_assign st empty_object ps)"
| "source_keyValueMap st (PlainObject ps) = Object_assign st empty_object ps"
| "source_keyValueMap st Primitive = Inr empty_object"

text \<open>
  The value that a literal source (a pair array or a plain mapping) maps a key to; in a pair
  array the last pair with the key counts.
\<close>

fun literal_value :: "source_input \<Rightarrow> key \<Rightarrow> jsval option" where
  "literal_value (PairArray es) K = map_of (rev es) K"
| "literal_value (PlainObject ps) K = map_of ps K"
| "literal_value src K = None"

text \<open>
  \<^verbatim>\<open>Object.getPrototypeOf\<close> throws on \<^verbatim>\<open>null\<close>; a proxy with no trap for it answers for its
  target, and likewise for \<^verbatim>\<open>Object.setPrototypeOf\<close>.
\<close>

fun getPrototypeOf :: "obj \<Rightarrow> error + obj" where
  "getPrototypeOf ONull = Inl TypeError"
| "getPrototypeOf (Ordinary ps proto) = Inr proto"
| "getPrototypeOf (ProxyObj target inst) = getPrototypeOf target"

fun setPrototypeOf :: "obj \<Rightarrow> obj \<Rightarrow> obj" where
  "setPrototypeOf ONull proto = ONull"
| "setPrototypeOf (Ordinary ps old) proto = Ordinary ps proto"
| "setPrototypeOf (ProxyObj target inst) proto = ProxyObj (setPrototypeOf target proto) inst"

text \<open>
  The fallback step of \<^verbatim>\<open>applyTo\<close>: with \<^verbatim>\<open>fallback\<close> on, a function found at
  \<^verbatim>\<open>keyValueMap[ALL]\<close> is wrapped, and anything else is replaced by the bound
  \<^verbatim>\<open>Reflect.get\<close>.
\<close>

definition apply_fallback :: "store \<Rightarrow> bool \<Rightarrow> plain_object \<Rightarrow> error + plain_object" where
  "apply_fallback st fb kvm =
     (if fb then
        (case prop_get st kvm ALL_key of
           VFn handler \<Rightarrow> js_set st ALL_key (VFn (FallbackArrow handler)) kvm
         | _ \<Rightarrow> js_set st ALL_key (VFn ReflectGet) kvm)
      else Inr kvm)"

text \<open>The defaults of the options, as the destructuring in \<^verbatim>\<open>applyTo\<close> gives them.\<close>

definition default_options :: options where
  "default_options = \<lparr>fallback = True, evalFns = True, except = [], copyParentProto = True\<rparr>"

text \<open>
  The destructuring of \<^verbatim>\<open>options\<close> with its defaults; an absent \<^verbatim>\<open>options\<close> is \<^verbatim>\<open>{}\<close>.
\<close>

definition resolve_options :: "options_input option \<Rightarrow> options" where
  "resolve_options opts =
     (let given = (case opts of
                     Some g \<Rightarrow> g
                   | None \<Rightarrow> \<lparr>fallback_in = None, evalFns_in = None, except_in = None,
                              copyParentProto_in = None\<rparr>)
      in \<lparr>fallback = (case fallback_in given of Some b \<Rightarrow> b | None \<Rightarrow> True),
          evalFns = (case evalFns_in given of Some b \<Rightarrow> b | None \<Rightarrow> True),
          except = (case except_in given of Some ks \<Rightarrow> ks | None \<Rightarrow> []),
          copyParentProto = (case copyParentProto_in given of Some b \<Rightarrow> b | None \<Rightarrow> True)\<rparr>)"

text \<open>
  \<^verbatim>\<open>SubscriptProxy.applyTo(target, kvMapOrFunction, options)\<close>.  It returns the instance
  and, since the target is a value here, the target with its prototype set to the proxy.
  An assignment to \<^verbatim>\<open>keyValueMap\<close> that throws ends the call, and so do
  \<^verbatim>\<open>Object.getPrototypeOf\<close> on \<^verbatim>\<open>null\<close> and \<^verbatim>\<open>new Proxy\<close> on a \<^verbatim>\<open>null\<close> prototype.
\<close>

definition applyTo ::
  "store \<Rightarrow> obj \<Rightarrow> source_input \<Rightarrow> options_input option \<Rightarrow> error + (SubscriptProxy \<times> obj)" where
  "applyTo st target kvMapOrFunction opts =
     (let resolved = resolve_options opts
      in case source_keyValueMap st kvMapOrFunction of
           Inl e \<Rightarrow> Inl e
         | Inr filled \<Rightarrow>
             (case apply_fallback st (fallback resolved) filled of
                Inl e \<Rightarrow> Inl e
              | Inr kvm \<Rightarrow>
                  (case getPrototypeOf target of
                     Inl e \<Rightarrow> Inl e
                   | Inr parent \<Rightarrow>
                       (let prototype = (if copyParentProto resolved then Ordinary [] parent
                                         else parent);
                            inst = \<lparr>keyValueMap = kvm, options = resolved\<rparr>
                        in if prototype = ONull then Inl TypeError
                           else Inr (inst, setPrototypeOf target (ProxyObj prototype inst))))))"

section \<open>Example inputs\<close>

text \<open>
  The functions of the examples: \<open>0\<close> is \<^verbatim>\<open>() => true\<close>; \<open>1\<close> is the wildcard handler of the
  test suite, which answers \<^verbatim>\<open>'custom fallback'\<close> for \<^verbatim>\<open>missing\<close> and \<^verbatim>\<open>undefined\<close> otherwise;
  \<open>2\<close> is \<^verbatim>\<open>Object.prototype.toString\<close> called with no \<^verbatim>\<open>this\<close>; \<open>8\<close> stands for the methods of
  \<^verbatim>\<open>Object.prototype\<close> that throw a \<^verbatim>\<open>TypeError\<close> when called with no \<^verbatim>\<open>this\<close>; any other
  function returns an object.
\<close>

definition demo_call :: "fid \<Rightarrow> obj \<Rightarrow> key \<Rightarrow> obj \<Rightarrow> error + jsval" where
  "demo_call f target property receiver =
     (if f = 0 then Inr (VBool True)
      else if f = 1 then
        (if property = StrKey ''missing'' then Inr (VStr ''custom fallback'') else Inr VUndefined)
      else if f = 2 then Inr (VStr ''[object Undefined]'')
      else if f = 8 then Inl TypeError
      else Inr (VObj f))"

text \<open>
  What the iterators of the examples yield while the port is \<open>port\<close>: \<open>3\<close> is the generator
  method of a user-defined iterable and \<open>6\<close> is the \<^verbatim>\<open>Symbol.iterator\<close> method of a \<^verbatim>\<open>Map\<close>,
  both over the live entries \<^verbatim>\<open>[['PORT', port]]\<close>; \<open>4\<close> is a generator function yielding
  \<^verbatim>\<open>['a', 'gen']\<close>; \<open>5\<close> is a generator method yielding \<^verbatim>\<open>['*', 'x']\<close>.
\<close>

definition demo_iterate :: "string \<Rightarrow> fid \<Rightarrow> (key \<times> jsval) list" where
  "demo_iterate port f =
     (if f = 3 \<or> f = 6 then [(StrKey ''PORT'', VStr port)]
      else if f = 4 then [(StrKey ''a'', VStr ''gen'')]
      else if f = 5 then [(StrKey ''*'', VStr ''x'')]
      else [])"

text \<open>The data properties of \<^verbatim>\<open>Object.prototype\<close> in a fresh realm.\<close>

definition standard_Object_prototype :: props where
  "standard_Object_prototype =
     [(StrKey ''constructor'', VFn (UserFn 9)),
      (StrKey ''__defineGetter__'', VFn (UserFn 8)),
      (StrKey ''__defineSetter__'', VFn (UserFn 8)),
      (StrKey ''hasOwnProperty'', VFn (UserFn 8)),
      (StrKey ''__lookupGetter__'', VFn (UserFn 8)),
      (StrKey ''__lookupSetter__'', VFn (UserFn 8)),
      (StrKey ''isPrototypeOf'', VFn (UserFn 8)),
      (StrKey ''propertyIsEnumerable'', VFn (UserFn 8)),
      (StrKey ''toString'', VFn (UserFn 2)),
      (StrKey ''valueOf'', VFn (UserFn 8)),
      (StrKey ''toLocaleString'', VFn (UserFn 8))]"

text \<open>
  The store of the examples while the port is \<open>port\<close>.  Its object values are empty objects
  that inherit from \<^verbatim>\<open>Object.prototype\<close>, and its functions have their read-only \<^verbatim>\<open>name\<close>
  and \<^verbatim>\<open>length\<close>.
\<close>

definition demo_store :: "string \<Rightarrow> store" where
  "demo_store port =
     \<lparr>user_call = demo_call, user_iterate = demo_iterate port,
      Object_prototype = standard_Object_prototype,
      value_get = (\<lambda>parent k. VUndefined),
      reaches_Object_prototype = (\<lambda>parent. True),
      read_only = (\<lambda>parent k. is_fn parent \<and> (k = StrKey ''name'' \<or> k = StrKey ''length''))\<rparr>"

definition Object_prototype_obj :: obj where
  "Object_prototype_obj = Ordinary standard_Object_prototype ONull"

definition cocacola :: obj where
  "cocacola = Ordinary [(StrKey ''name'', VStr ''Cocacola'')] Object_prototype_obj"

definition child :: obj where
  "child =
     Ordinary [(StrKey ''own'', VStr ''mine'')]
       (Ordinary [(StrKey ''inherited'', VStr ''from parent'')] Object_prototype_obj)"

text \<open>Option arguments: \<^verbatim>\<open>{}\<close>, \<^verbatim>\<open>{fallback: false}\<close> and \<^verbatim>\<open>{except: ks}\<close>.\<close>

definition no_options :: options_input where
  "no_options =
     \<lparr>fallback_in = None, evalFns_in = None, except_in = None, copyParentProto_in = None\<rparr>"

definition no_fallback :: options_input where
  "no_fallback = no_options\<lparr>fallback_in := Some False\<rparr>"

definition except_keys :: "key list \<Rightarrow> options_input" where
  "except_keys ks = no_options\<lparr>except_in := Some ks\<rparr>"

section \<open>Facts about the library functions\<close>

lemma array_index_string: "array_index k = Some n \<Longrightarrow> is_string_key k"
  by (cases k) auto

lemma set_order_keys: "set (order_keys ks) = set ks"
  unfolding order_keys_def by (auto dest: array_index_string)

lemma distinct_order_keys: "distinct ks \<Longrightarrow> distinct (order_keys ks)"
  unfolding order_keys_def by (auto dest: array_index_string)

lemma set_own_keys: "set (own_keys ps) = fst ` set ps"
  by (simp add: own_keys_def set_order_keys)

lemma set_Reflect_ownKeys: "set (Reflect_ownKeys obj) = fst ` set (props_of obj)"
  by (simp add: Reflect_ownKeys_def set_own_keys)

lemma distinct_Reflect_ownKeys:
  "distinct (map fst (props_of obj)) \<Longrightarrow> distinct (Reflect_ownKeys obj)"
  by (simp add: Reflect_ownKeys_def own_keys_def distinct_order_keys)

lemma set_Object_keys:
  "set (Object_keys obj) = {k \<in> fst ` set (props_of obj). is_string_key k}"
  by (auto simp: Object_keys_def set_Reflect_ownKeys)

lemma distinct_Object_keys:
  "distinct (map fst (props_of obj)) \<Longrightarrow> distinct (Object_keys obj)"
  by (simp add: Object_keys_def distinct_Reflect_ownKeys)

lemma map_of_in_keys: "map_of ps k = Some v \<Longrightarrow> k \<in> fst ` set ps"
  by (metis domI dom_map_of_conv_image_fst)

lemma map_of_not_in_keys: "k \<notin> fst ` set ps \<Longrightarrow> map_of ps k = None"
  by (simp add: map_of_eq_None_iff)

subsection \<open>Object.fromEntries, assignment and Object.assign\<close>

lemma fromEntries_aux:
  "map_of (foldl (\<lambda>ps (k, v). AList.update k v ps) acc es) = map_of acc ++ map_of (rev es)"
  by (induction es arbitrary: acc)
     (auto simp: update_conv' map_add_upd_left fun_eq_iff map_add_def split: option.splits)

lemma map_of_Object_fromEntries: "map_of (props_of (Object_fromEntries es)) = map_of (rev es)"
  by (simp add: Object_fromEntries_def fromEntries_aux)

lemma proto_of_Object_fromEntries: "proto_of (Object_fromEntries es) = ObjectProto"
  by (simp add: Object_fromEntries_def)

lemma distinct_fromEntries_aux:
  "distinct (map fst acc) \<Longrightarrow>
     distinct (map fst (foldl (\<lambda>ps (k, v). AList.update k v ps) acc es))"
  by (induction es arbitrary: acc) (auto simp: distinct_update)

lemma distinct_Object_fromEntries: "distinct (map fst (props_of (Object_fromEntries es)))"
  by (simp add: Object_fromEntries_def distinct_fromEntries_aux)

lemma marker_keys_not_proto_key: "ALL_key \<noteq> proto_key" "GENFN \<noteq> proto_key" "GENFN \<noteq> ALL_key"
  by (simp_all add: ALL_key_def GENFN_def proto_key_def)

lemma js_set_plain:
  "js_set st k v obj = Inr obj' \<Longrightarrow> k \<noteq> proto_key \<Longrightarrow>
     obj' = obj\<lparr>props_of := AList.update k v (props_of obj)\<rparr>"
  by (cases "proto_of obj") (auto simp: js_set_def split: if_splits)

lemma js_set_fresh:
  "k \<noteq> proto_key \<Longrightarrow> proto_of obj = ObjectProto \<Longrightarrow>
     js_set st k v obj = Inr (obj\<lparr>props_of := AList.update k v (props_of obj)\<rparr>)"
  by (simp add: js_set_def)

lemma js_set_own:
  "k \<in> fst ` set (props_of obj) \<Longrightarrow>
     js_set st k v obj = Inr (obj\<lparr>props_of := AList.update k v (props_of obj)\<rparr>)"
  by (simp add: js_set_def)

lemma js_set_cases:
  assumes "js_set st k v obj = Inr obj'"
  obtains "obj' = obj\<lparr>props_of := AList.update k v (props_of obj)\<rparr>"
    | "obj' = obj\<lparr>proto_of := set_proto v (proto_of obj)\<rparr>"
  using assms by (auto simp: js_set_def split: if_splits set_outcome.splits)

lemma map_of_js_set:
  "js_set st k v obj = Inr obj' \<Longrightarrow> K \<noteq> proto_key \<Longrightarrow>
     map_of (props_of obj') K = (if k = K then Some v else map_of (props_of obj) K)"
proof (cases "k = proto_key")
  case True
  assume "js_set st k v obj = Inr obj'" and "K \<noteq> proto_key"
  then show ?thesis
    using True by (auto elim!: js_set_cases simp: update_conv')
next
  case False
  assume "js_set st k v obj = Inr obj'"
  then have "obj' = obj\<lparr>props_of := AList.update k v (props_of obj)\<rparr>"
    using False by (rule js_set_plain)
  then show ?thesis
    by (simp add: update_conv')
qed

lemma distinct_js_set:
  "js_set st k v obj = Inr obj' \<Longrightarrow> distinct (map fst (props_of obj)) \<Longrightarrow>
     distinct (map fst (props_of obj'))"
  by (auto elim!: js_set_cases simp: distinct_update)

lemma keys_js_set:
  assumes "js_set st k v obj = Inr obj'"
  shows "fst ` set (props_of obj') \<subseteq> insert k (fst ` set (props_of obj))"
proof -
  have "dom (map_of (props_of obj')) \<subseteq> insert k (dom (map_of (props_of obj)))"
    using assms by (auto elim!: js_set_cases simp: update_conv' split: if_splits)
  then show ?thesis
    by (simp add: dom_map_of_conv_image_fst)
qed

lemma assign_keys_entry:
  "assign_keys st source ks acc = Inr obj' \<Longrightarrow> K \<noteq> proto_key \<Longrightarrow>
     map_of (props_of obj') K
       = (if K \<in> set ks then Some (own_value source K) else map_of (props_of acc) K)"
proof (induction ks arbitrary: acc)
  case Nil
  then show ?case by simp
next
  case (Cons k ks)
  from Cons.prems(1) obtain mid where
    step: "js_set st k (own_value source k) acc = Inr mid" and
    rest: "assign_keys st source ks mid = Inr obj'"
    by (auto split: sum.splits)
  show ?case
    using Cons.IH[OF rest Cons.prems(2)] map_of_js_set[OF step Cons.prems(2)] by auto
qed

lemma map_of_Object_assign:
  "Object_assign st target source = Inr obj' \<Longrightarrow> K \<noteq> proto_key \<Longrightarrow>
     map_of (props_of obj') K =
       (if K \<in> fst ` set source then Some (own_value source K) else map_of (props_of target) K)"
  by (simp add: Object_assign_def assign_keys_entry set_own_keys)

lemma distinct_assign_keys:
  "assign_keys st source ks acc = Inr obj' \<Longrightarrow> distinct (map fst (props_of acc)) \<Longrightarrow>
     distinct (map fst (props_of obj'))"
proof (induction ks arbitrary: acc)
  case Nil
  then show ?case by simp
next
  case (Cons k ks)
  from Cons.prems(1) obtain mid where
    step: "js_set st k (own_value source k) acc = Inr mid" and
    rest: "assign_keys st source ks mid = Inr obj'"
    by (auto split: sum.splits)
  show ?case
    using Cons.IH[OF rest] distinct_js_set[OF step Cons.prems(2)] by simp
qed

lemma distinct_Object_assign:
  "Object_assign st target source = Inr obj' \<Longrightarrow> distinct (map fst (props_of target)) \<Longrightarrow>
     distinct (map fst (props_of obj'))"
  by (simp add: Object_assign_def distinct_assign_keys)

lemma map_of_assign_fresh:
  assumes "Object_assign st empty_object ps = Inr obj'" and "K \<noteq> proto_key"
  shows "map_of (props_of obj') K = map_of ps K"
proof (cases "map_of ps K")
  case None
  then have "K \<notin> fst ` set ps" by (simp add: map_of_eq_None_iff)
  then show ?thesis
    using None map_of_Object_assign[OF assms] by (simp add: empty_object_def)
next
  case (Some v)
  then have "K \<in> fst ` set ps" by (rule map_of_in_keys)
  then show ?thesis
    using Some map_of_Object_assign[OF assms] by (simp add: own_value_def)
qed

text \<open>
  A source without the key \<^verbatim>\<open>'__proto__'\<close> leaves the prototype of the fresh \<^verbatim>\<open>keyValueMap\<close>
  alone, and no assignment is refused.
\<close>

lemma assign_keys_plain:
  "proto_key \<notin> set ks \<Longrightarrow> proto_of acc = ObjectProto \<Longrightarrow>
     \<exists>obj'. assign_keys st source ks acc = Inr obj' \<and> proto_of obj' = ObjectProto"
proof (induction ks arbitrary: acc)
  case Nil
  then show ?case by simp
next
  case (Cons k ks)
  have "k \<noteq> proto_key"
    using Cons.prems(1) by auto
  then have "js_set st k (own_value source k) acc
          = Inr (acc\<lparr>props_of := AList.update k (own_value source k) (props_of acc)\<rparr>)"
    using Cons.prems(2) by (rule js_set_fresh)
  then show ?case
    using Cons.IH[of "acc\<lparr>props_of := AList.update k (own_value source k) (props_of acc)\<rparr>"]
      Cons.prems by simp
qed

lemma Object_assign_plain:
  "proto_key \<notin> fst ` set source \<Longrightarrow>
     \<exists>obj'. Object_assign st empty_object source = Inr obj' \<and> proto_of obj' = ObjectProto"
  unfolding Object_assign_def
  by (rule assign_keys_plain) (simp_all add: set_own_keys empty_object_def)

text \<open>
  The setter at work: a source key \<^verbatim>\<open>'__proto__'\<close> never becomes an own key of the fresh
  \<^verbatim>\<open>keyValueMap\<close> that \<^verbatim>\<open>Object.assign\<close> fills from a source with distinct keys.
\<close>

lemma proto_key_assign_keys:
  "assign_keys st source ks acc = Inr obj' \<Longrightarrow> distinct ks \<Longrightarrow>
     proto_key \<notin> fst ` set (props_of acc) \<Longrightarrow>
     proto_key \<in> set ks \<longrightarrow> proto_of acc = ObjectProto \<Longrightarrow>
     proto_key \<notin> fst ` set (props_of obj')"
proof (induction ks arbitrary: acc)
  case Nil
  then show ?case by simp
next
  case (Cons k ks)
  from Cons.prems(1) obtain mid where
    step: "js_set st k (own_value source k) acc = Inr mid" and
    rest: "assign_keys st source ks mid = Inr obj'"
    by (auto split: sum.splits)
  show ?case
  proof (cases "k = proto_key")
    case True
    then have "mid = acc\<lparr>proto_of := set_proto (own_value source k) (proto_of acc)\<rparr>"
      using step Cons.prems by (simp add: js_set_def)
    moreover have "proto_key \<notin> set ks"
      using Cons.prems(2) True by simp
    ultimately show ?thesis
      using Cons.IH[OF rest] Cons.prems by simp
  next
    case False
    have mid: "mid = acc\<lparr>props_of := AList.update k (own_value source k) (props_of acc)\<rparr>"
      using step False by (rule js_set_plain)
    have "proto_key \<notin> fst ` set (props_of mid)"
      using Cons.prems(3) False keys_js_set[OF step] by auto
    then show ?thesis
      using Cons.IH[OF rest] Cons.prems False mid by simp
  qed
qed

lemma proto_key_never_own:
  "Object_assign st empty_object source = Inr obj' \<Longrightarrow> distinct (map fst source) \<Longrightarrow>
     proto_key \<notin> fst ` set (props_of obj')"
proof -
  assume run: "Object_assign st empty_object source = Inr obj'" and "distinct (map fst source)"
  then have keys: "distinct (own_keys source)"
    by (simp add: own_keys_def distinct_order_keys)
  have "assign_keys st source (own_keys source) empty_object = Inr obj'"
    using run by (simp add: Object_assign_def)
  then show ?thesis
    using keys by (rule proto_key_assign_keys) (simp_all add: empty_object_def)
qed

subsection \<open>The traps and the installed layer\<close>

declare get_trap.simps [simp del]
declare has_trap.simps [simp del]

lemma proto_of_snapshot: "proto_of (snd (getRelevantKeys st inst)) = ObjectProto"
  by (simp add: getRelevantKeys_def Let_def proto_of_Object_fromEntries)

lemma props_of_snapshot: "props_of (snd (getRelevantKeys st inst)) = snapshot st inst"
  by (simp add: snapshot_def)

lemma relevant_keys_mem:
  "K \<in> set (fst (getRelevantKeys st inst)) \<longleftrightarrow>
     (K \<in> fst ` set (props_of (keyValueMap inst)) \<and> K \<notin> set (except (options inst))
        \<and> K \<noteq> ALL_key \<and> K \<noteq> GENFN)
     \<or> (is_string_key K \<and> K \<in> fst ` set (snapshot st inst))"
  by (auto simp: getRelevantKeys_def snapshot_def Let_def set_Reflect_ownKeys set_Object_keys
        list_ex_iff)

lemma get_trap_unclaimed:
  "K \<notin> set (fst (getRelevantKeys st inst)) \<Longrightarrow>
     get_trap st inst target K R =
       (if truthy (prop_get st (keyValueMap inst) ALL_key)
        then invoke st (prop_get st (keyValueMap inst) ALL_key) target K R
        else Inr VUndefined)"
  by (cases "getRelevantKeys st inst") (simp add: get_trap.simps Let_def)

lemma get_trap_claimed:
  "K \<in> set (fst (getRelevantKeys st inst)) \<Longrightarrow>
     get_trap st inst target K R =
       (let v = prop_get st (keyValueMap inst) K;
            value = (if nullish v then prop_get st (snd (getRelevantKeys st inst)) K else v)
        in if evalFns (options inst) \<and> is_fn value then invoke st value target K R
           else Inr value)"
  by (cases "getRelevantKeys st inst") (auto simp: get_trap.simps Let_def)

lemma has_trap_unclaimed:
  "K \<notin> set (fst (getRelevantKeys st inst)) \<Longrightarrow> has_trap st inst target K = js_has st target K"
  by (simp add: has_trap.simps)

lemma has_trap_claimed:
  "K \<in> set (fst (getRelevantKeys st inst)) \<Longrightarrow> has_trap st inst target K"
  by (simp add: has_trap.simps)

lemma applyTo_Ordinary:
  assumes "applyTo st (Ordinary ps P) src opts = Inr (inst, T')"
  shows "(case source_keyValueMap st src of
            Inl e \<Rightarrow> Inl e
          | Inr filled \<Rightarrow> apply_fallback st (fallback (resolve_options opts)) filled)
         = Inr (keyValueMap inst)"
    and "options inst = resolve_options opts"
    and "T' = Ordinary ps (ProxyObj (if copyParentProto (options inst) then Ordinary [] P else P) inst)"
  using assms by (auto simp: applyTo_def Let_def split: if_splits sum.splits)

lemma applyTo_filled:
  assumes "applyTo st (Ordinary ps P) src opts = Inr (inst, T')"
  obtains filled where "source_keyValueMap st src = Inr filled"
    and "apply_fallback st (fallback (resolve_options opts)) filled = Inr (keyValueMap inst)"
  using applyTo_Ordinary(1)[OF assms] by (auto split: sum.splits)

lemma read_through_layer:
  "T' = Ordinary ps (ProxyObj proto inst) \<Longrightarrow>
     js_get st T' K R = (case map_of ps K of Some v \<Rightarrow> Inr v | None \<Rightarrow> get_trap st inst proto K R)"
  by (simp split: option.splits)

lemma prop_get_own: "map_of (props_of obj) k = Some v \<Longrightarrow> prop_get st obj k = v"
  by (simp add: prop_get_def)

lemma prop_get_absent:
  "k \<notin> fst ` set (props_of obj) \<Longrightarrow> proto_of obj = ObjectProto \<Longrightarrow>
     Object_prototype_get st k = None \<Longrightarrow> prop_get st obj k = VUndefined"
  by (simp add: prop_get_def map_of_not_in_keys)

lemma snapshot_get_absent:
  "K \<notin> fst ` set (snapshot st inst) \<Longrightarrow> Object_prototype_get st K = None \<Longrightarrow>
     prop_get st (snd (getRelevantKeys st inst)) K = VUndefined"
  by (rule prop_get_absent) (simp_all add: props_of_snapshot proto_of_snapshot)

lemma snapshot_get_own:
  "map_of (snapshot st inst) K = Some v \<Longrightarrow> prop_get st (snd (getRelevantKeys st inst)) K = v"
  by (rule prop_get_own) (simp add: props_of_snapshot)

lemma apply_fallback_step:
  assumes "apply_fallback st fb kvm = Inr kvm'"
  obtains "kvm' = kvm" and "\<not> fb"
    | v where "kvm' = kvm\<lparr>props_of := AList.update ALL_key v (props_of kvm)\<rparr>" and "fb"
proof (cases fb)
  case False
  then show ?thesis
    using assms that(1) by (simp add: apply_fallback_def)
next
  case True
  then obtain v where "js_set st ALL_key v kvm = Inr kvm'"
    using assms by (auto simp: apply_fallback_def split: jsval.splits)
  then have "kvm' = kvm\<lparr>props_of := AList.update ALL_key v (props_of kvm)\<rparr>"
    using marker_keys_not_proto_key(1) by (rule js_set_plain)
  then show ?thesis
    using True that(2) by blast
qed

lemma apply_fallback_fn:
  "prop_get st kvm ALL_key = VFn h \<Longrightarrow> apply_fallback st True kvm = Inr kvm' \<Longrightarrow>
     map_of (props_of kvm') ALL_key = Some (VFn (FallbackArrow h))"
  using map_of_js_set[of st ALL_key "VFn (FallbackArrow h)" kvm kvm' ALL_key]
  by (simp add: apply_fallback_def marker_keys_not_proto_key)

lemma apply_fallback_no_fn:
  "\<not> is_fn (prop_get st kvm ALL_key) \<Longrightarrow> apply_fallback st True kvm = Inr kvm' \<Longrightarrow>
     map_of (props_of kvm') ALL_key = Some (VFn ReflectGet)"
  using map_of_js_set[of st ALL_key "VFn ReflectGet" kvm kvm' ALL_key]
  by (cases "prop_get st kvm ALL_key") (simp_all add: apply_fallback_def marker_keys_not_proto_key)

lemma apply_fallback_other:
  "apply_fallback st fb kvm = Inr kvm' \<Longrightarrow> K \<noteq> ALL_key \<Longrightarrow>
     map_of (props_of kvm') K = map_of (props_of kvm) K"
  by (erule apply_fallback_step) (simp_all add: update_conv')

lemma apply_fallback_proto:
  "apply_fallback st fb kvm = Inr kvm' \<Longrightarrow> proto_of kvm' = proto_of kvm"
  by (erule apply_fallback_step) simp_all

lemma apply_fallback_keys:
  assumes "apply_fallback st fb kvm = Inr kvm'"
  shows "fst ` set (props_of kvm') \<subseteq> insert ALL_key (fst ` set (props_of kvm))"
proof -
  have "dom (map_of (props_of kvm')) \<subseteq> insert ALL_key (dom (map_of (props_of kvm)))"
    using assms by (rule apply_fallback_step) (auto simp: update_conv' split: if_splits)
  then show ?thesis
    by (simp add: dom_map_of_conv_image_fst)
qed

lemma distinct_apply_fallback:
  "apply_fallback st fb kvm = Inr kvm' \<Longrightarrow> distinct (map fst (props_of kvm)) \<Longrightarrow>
     distinct (map fst (props_of kvm'))"
  by (erule apply_fallback_step) (simp_all add: distinct_update)

lemma distinct_source_keyValueMap:
  "source_keyValueMap st src = Inr kvm \<Longrightarrow> distinct (map fst (props_of kvm))"
proof (cases src)
  case (PairArray es)
  assume "source_keyValueMap st src = Inr kvm"
  then show ?thesis
    using PairArray by (auto intro: distinct_Object_assign simp: empty_object_def)
next
  case (Callable f)
  assume "source_keyValueMap st src = Inr kvm"
  then show ?thesis
    using Callable by (auto intro: distinct_js_set simp: empty_object_def)
next
  case (Iterable m own)
  assume "source_keyValueMap st src = Inr kvm"
  then show ?thesis
    using Iterable
    by (auto intro: distinct_js_set distinct_Object_assign simp: empty_object_def split: if_splits)
next
  case (PlainObject own)
  assume "source_keyValueMap st src = Inr kvm"
  then show ?thesis
    using PlainObject by (auto intro: distinct_Object_assign simp: empty_object_def)
next
  case Primitive
  assume "source_keyValueMap st src = Inr kvm"
  then show ?thesis
    using Primitive by (auto simp: empty_object_def)
qed

lemma distinct_installed_keyValueMap:
  assumes "applyTo st (Ordinary ps P) src opts = Inr (inst, T')"
  shows "distinct (map fst (props_of (keyValueMap inst)))"
proof -
  from assms obtain filled where "source_keyValueMap st src = Inr filled"
    and "apply_fallback st (fallback (resolve_options opts)) filled = Inr (keyValueMap inst)"
    by (rule applyTo_filled)
  then show ?thesis
    by (blast intro: distinct_apply_fallback distinct_source_keyValueMap)
qed

lemma literal_source_keyValueMap:
  "src = PairArray M \<or> src = PlainObject M \<Longrightarrow> source_keyValueMap st src = Inr filled \<Longrightarrow>
     K \<noteq> proto_key \<Longrightarrow> map_of (props_of filled) K = literal_value src K"
  by (auto simp: map_of_assign_fresh map_of_Object_fromEntries)

lemma literal_value_keys:
  "src = PairArray M \<or> src = PlainObject M \<Longrightarrow> literal_value src K = Some v \<Longrightarrow> K \<in> fst ` set M"
  by (force dest!: map_of_in_keys)

lemma literal_entry_claimed:
  assumes literal: "src = PairArray M \<or> src = PlainObject M"
      and installed: "applyTo st (Ordinary ps P) src opts = Inr (inst, T')"
      and entry: "literal_value src K = Some v"
      and plain: "K \<noteq> ALL_key" "K \<noteq> GENFN" "K \<noteq> proto_key" "K \<notin> set (except (options inst))"
  shows "map_of (props_of (keyValueMap inst)) K = Some v"
    and "K \<in> set (fst (getRelevantKeys st' inst))"
proof -
  from installed obtain filled where filled: "source_keyValueMap st src = Inr filled"
    and kvm: "apply_fallback st (fallback (resolve_options opts)) filled = Inr (keyValueMap inst)"
    by (rule applyTo_filled)
  show kv: "map_of (props_of (keyValueMap inst)) K = Some v"
    using apply_fallback_other[OF kvm plain(1)] literal_source_keyValueMap[OF literal filled plain(3)]
      entry
    by simp
  then have "K \<in> fst ` set (props_of (keyValueMap inst))"
    by (rule map_of_in_keys)
  then show "K \<in> set (fst (getRelevantKeys st' inst))"
    using plain by (simp add: relevant_keys_mem)
qed

lemma nullish_entry_trap:
  assumes claimed: "K \<in> set (fst (getRelevantKeys st inst))"
      and entry: "map_of (props_of (keyValueMap inst)) K = Some v" "nullish v"
      and not_yielded: "K \<notin> fst ` set (snapshot st inst)"
      and not_builtin: "Object_prototype_get st K = None"
  shows "get_trap st inst target K R = Inr VUndefined"
proof -
  have "prop_get st (keyValueMap inst) K = v"
    using entry(1) by (rule prop_get_own)
  moreover have "prop_get st (snd (getRelevantKeys st inst)) K = VUndefined"
    using not_yielded not_builtin by (rule snapshot_get_absent)
  ultimately show ?thesis
    using entry(2) by (simp add: get_trap_claimed[OF claimed] Let_def)
qed

lemma fallback_reads_native:
  assumes installed: "applyTo st (Ordinary ps P) src opts = Inr (inst, T')"
      and fb: "fallback (resolve_options opts)"
      and unclaimed: "K \<notin> set (fst (getRelevantKeys st' inst))"
      and filled: "source_keyValueMap st src = Inr filled"
      and nofn: "\<not> is_fn (prop_get st filled ALL_key)"
  shows "js_get st' T' K T' = js_get st' (Ordinary ps P) K T'"
proof -
  have "apply_fallback st True filled = Inr (keyValueMap inst)"
    using applyTo_Ordinary(1)[OF installed] filled fb by simp
  then have "map_of (props_of (keyValueMap inst)) ALL_key = Some (VFn ReflectGet)"
    using nofn by (simp add: apply_fallback_no_fn)
  then have "prop_get st' (keyValueMap inst) ALL_key = VFn ReflectGet"
    by (rule prop_get_own)
  then have "get_trap st' inst (if copyParentProto (options inst) then Ordinary [] P else P) K T'
               = js_get st' P K T'"
    using unclaimed by (simp add: get_trap_unclaimed)
  then show ?thesis
    by (simp add: read_through_layer[OF applyTo_Ordinary(3)[OF installed]]
          split: option.splits if_splits)
qed

subsection \<open>The two parts of the relevant keys\<close>

lemma relevant_keys_parts:
  "fst (getRelevantKeys st inst) = literal_keys inst @ generator_keys st inst"
  by (simp add: getRelevantKeys_def literal_keys_def generator_keys_def Let_def)

lemma distinct_generator_keys: "distinct (generator_keys st inst)"
  by (simp add: generator_keys_def distinct_Object_keys getRelevantKeys_def Let_def
        distinct_Object_fromEntries)

lemma distinct_literal_keys:
  "distinct (map fst (props_of (keyValueMap inst))) \<Longrightarrow> distinct (literal_keys inst)"
  by (simp add: literal_keys_def distinct_Reflect_ownKeys)

lemma marker_keys_not_literal: "ALL_key \<notin> set (literal_keys inst) \<and> GENFN \<notin> set (literal_keys inst)"
  by (simp add: literal_keys_def)

lemma excepted_keys_not_literal: "K \<in> set (except (options inst)) \<Longrightarrow> K \<notin> set (literal_keys inst)"
  by (simp add: literal_keys_def list_ex_iff)

lemma marker_keys_only_from_generator:
  "K = ALL_key \<or> K = GENFN \<Longrightarrow>
     K \<in> set (fst (getRelevantKeys st inst)) \<longleftrightarrow> K \<in> fst ` set (snapshot st inst)"
  by (auto simp: relevant_keys_mem ALL_key_def GENFN_def)

subsection \<open>Generator sources\<close>

lemma no_generator_no_snapshot:
  "\<not> is_genFn (prop_get st (keyValueMap inst) GENFN) \<Longrightarrow> snapshot st inst = []"
  by (cases "prop_get st (keyValueMap inst) GENFN")
     (simp_all add: snapshot_def getRelevantKeys_def Let_def Object_fromEntries_def)

lemma generator_snapshot:
  "prop_get st (keyValueMap inst) GENFN = VFn f \<Longrightarrow> instanceof_GeneratorFunction f \<Longrightarrow>
     snd (getRelevantKeys st inst) = Object_fromEntries (spread_call st f)"
  by (simp add: getRelevantKeys_def Let_def)

lemma iterable_keyValueMap:
  assumes installed: "applyTo st (Ordinary ps P) (Iterable m own) opts = Inr (inst, T')"
      and first: "spread_call st m \<noteq> []"
  shows "fst ` set (props_of (keyValueMap inst)) \<subseteq> {ALL_key, GENFN}"
    and "prop_get st' (keyValueMap inst) GENFN = VFn (Bound m)"
    and "proto_of (keyValueMap inst) = ObjectProto"
proof -
  let ?filled = "empty_object\<lparr>props_of := AList.update GENFN (VFn (Bound m)) (props_of empty_object)\<rparr>"
  have src: "source_keyValueMap st (Iterable m own) = Inr ?filled"
    using first by (simp add: js_set_fresh marker_keys_not_proto_key empty_object_def)
  then have kvm: "apply_fallback st (fallback (resolve_options opts)) ?filled = Inr (keyValueMap inst)"
    using applyTo_Ordinary(1)[OF installed] by simp
  have "fst ` set (props_of ?filled) \<subseteq> {GENFN}"
    by (simp add: empty_object_def)
  then show "fst ` set (props_of (keyValueMap inst)) \<subseteq> {ALL_key, GENFN}"
    using apply_fallback_keys[OF kvm] by blast
  have "map_of (props_of (keyValueMap inst)) GENFN = Some (VFn (Bound m))"
    using apply_fallback_other[OF kvm marker_keys_not_proto_key(3)]
    by (simp add: empty_object_def)
  then show "prop_get st' (keyValueMap inst) GENFN = VFn (Bound m)"
    by (rule prop_get_own)
  show "proto_of (keyValueMap inst) = ObjectProto"
    using apply_fallback_proto[OF kvm] by (simp add: empty_object_def)
qed

text \<open>
  An iterable whose \<^verbatim>\<open>Symbol.iterator\<close> method is not a generator function is never
  iterated by the traps: no key is relevant.
\<close>

lemma non_generator_iterable_claims_nothing:
  assumes installed: "applyTo st (Ordinary ps P) (Iterable m own) opts = Inr (inst, T')"
      and yields: "spread_call st m \<noteq> []"
      and plain: "\<not> instanceof_GeneratorFunction m"
  shows "fst (getRelevantKeys st' inst) = []"
proof -
  note kvm = iterable_keyValueMap[OF installed yields]
  have lit: "literal_keys inst = []"
    using kvm(1) by (auto simp: literal_keys_def filter_empty_conv set_Reflect_ownKeys)
  have "snapshot st' inst = []"
    using plain by (simp add: no_generator_no_snapshot kvm(2))
  then have "generator_keys st' inst = []"
    by (simp add: generator_keys_def Object_keys_def Reflect_ownKeys_def own_keys_def
          order_keys_def props_of_snapshot)
  then show ?thesis
    using lit by (simp add: relevant_keys_parts)
qed

text \<open>
  An iterable whose \<^verbatim>\<open>Symbol.iterator\<close> method is a generator function is iterated again by
  every access: a string key reads as the value of the last pair that the iteration yields
  for it at that moment.
\<close>

lemma generator_iterable_read:
  assumes installed: "applyTo st (Ordinary ps P) (Iterable m own) opts = Inr (inst, T')"
      and first: "spread_call st m \<noteq> []"
      and generator: "instanceof_GeneratorFunction m"
      and yielded: "map_of (rev (spread_call st' m)) K = Some v"
      and plain: "is_string_key K" "K \<noteq> ALL_key" "K \<noteq> GENFN"
      and not_builtin: "Object_prototype_get st' K = None"
      and not_own: "map_of ps K = None"
  shows "js_get st' T' K T' =
           (if evalFns (options inst) \<and> is_fn v
            then invoke st' v (if copyParentProto (options inst) then Ordinary [] P else P) K T'
            else Inr v)"
proof -
  let ?proto = "if copyParentProto (options inst) then Ordinary [] P else P"
  note kvm = iterable_keyValueMap[OF installed first]
  have "snd (getRelevantKeys st' inst) = Object_fromEntries (spread_call st' (Bound m))"
    using generator by (simp add: generator_snapshot kvm(2))
  then have snap: "map_of (snapshot st' inst) K = Some v"
    using yielded by (simp add: snapshot_def map_of_Object_fromEntries)
  then have "K \<in> fst ` set (snapshot st' inst)"
    by (rule map_of_in_keys)
  then have claimed: "K \<in> set (fst (getRelevantKeys st' inst))"
    using plain(1) by (simp add: relevant_keys_mem)
  have absent: "K \<notin> fst ` set (props_of (keyValueMap inst))"
    using kvm(1) plain(2,3) by auto
  from absent kvm(3) have "prop_get st' (keyValueMap inst) K = VUndefined"
    using not_builtin by (rule prop_get_absent)
  moreover have "prop_get st' (snd (getRelevantKeys st' inst)) K = v"
    using snap by (rule snapshot_get_own)
  ultimately have "get_trap st' inst ?proto K T' =
      (if evalFns (options inst) \<and> is_fn v then invoke st' v ?proto K T' else Inr v)"
    by (simp add: get_trap_claimed[OF claimed] Let_def)
  then show ?thesis
    using not_own by (simp add: read_through_layer[OF applyTo_Ordinary(3)[OF installed]])
qed

text \<open>The definitions that evaluating a concrete access unfolds.\<close>

lemmas eval_defs = applyTo_def resolve_options_def apply_fallback_def Object_assign_def js_set_def
  empty_object_def Object_fromEntries_def Reflect_ownKeys_def own_keys_def order_keys_def
  own_value_def prop_get_def Object_prototype_get_def Object_prototype_value_def proto_key_def
  getRelevantKeys_def snapshot_def Object_keys_def Let_def ALL_key_def GENFN_def is_digit_def
  decimal_def index_rank_def get_trap.simps has_trap.simps ownKeys_trap_def demo_call_def
  demo_iterate_def demo_store_def standard_Object_prototype_def Object_prototype_obj_def
  cocacola_def child_def no_options_def no_fallback_def except_keys_def default_options_def
  literal_keys_def generator_keys_def

subsection \<open>A source with the key \<^verbatim>\<open>__proto__\<close>\<close>

text \<open>
  Three sources that carry the key \<^verbatim>\<open>'__proto__'\<close>.  A string value is ignored by the setter
  and the entry is lost; \<^verbatim>\<open>null\<close> cuts \<^verbatim>\<open>keyValueMap\<close> off from \<^verbatim>\<open>Object.prototype\<close>; and a
  function as prototype makes the assignment of \<^verbatim>\<open>name\<close> throw, so that nothing is installed.
  In no case is \<^verbatim>\<open>'__proto__'\<close> an own key of \<^verbatim>\<open>keyValueMap\<close>.
\<close>

lemma proto_entry_runs_the_setter:
  "source_keyValueMap (demo_store ''3000'') (PairArray [(proto_key, VStr ''x''), (StrKey ''a'', VNum 1)])
     = Inr \<lparr>props_of = [(StrKey ''a'', VNum 1)], proto_of = ObjectProto\<rparr>"
  "source_keyValueMap (demo_store ''3000'') (PlainObject [(proto_key, VNull), (StrKey ''a'', VNum 1)])
     = Inr \<lparr>props_of = [(StrKey ''a'', VNum 1)], proto_of = NullProto\<rparr>"
  "applyTo (demo_store ''3000'') cocacola
     (PlainObject [(proto_key, VFn (UserFn 0)), (StrKey ''name'', VStr ''x'')]) None = Inl TypeError"
  by (simp_all add: eval_defs)

section \<open>The claims\<close>

text \<open>
  In every claim the target is an ordinary object \<open>Ordinary ps P\<close> with own properties \<open>ps\<close>
  and original prototype \<open>P\<close>; \<open>st\<close> is the store when \<^verbatim>\<open>applyTo\<close> runs and \<open>st'\<close> the store
  when the property is accessed; reading \<^verbatim>\<open>T.K\<close> is \<open>js_get st' T' K T'\<close> for the target \<open>T'\<close>
  that \<^verbatim>\<open>applyTo\<close> leaves.
\<close>

subsection \<open>C1: a literal mapping is readable on the target\<close>

text \<open>
  The claim promises every key of the mapping back with its mapped value.  A mapped
  \<^verbatim>\<open>null\<close> is not read back: the get trap takes \<^verbatim>\<open>keyValueMap[property] ?? genObject[property]\<close>,
  so that after \<^verbatim>\<open>applyTo(cocacola, {nullProp: null})\<close> the read of \<^verbatim>\<open>cocacola.nullProp\<close> is
  \<^verbatim>\<open>undefined\<close>, as the test suite expects.
\<close>

theorem literal_mapping_drops_null:
  "(case applyTo (demo_store ''3000'') cocacola (PlainObject [(StrKey ''nullProp'', VNull)]) None of
      Inl e \<Rightarrow> False
    | Inr (inst, T') \<Rightarrow>
        js_get (demo_store ''3000'') T' (StrKey ''nullProp'') T' = Inr VUndefined)
   \<and> literal_value (PlainObject [(StrKey ''nullProp'', VNull)]) (StrKey ''nullProp'') = Some VNull"
  by (simp add: eval_defs)

text \<open>
  C1 (amended).  For a literal mapping \<open>M\<close> (pair array or plain mapping) whose keys are
  disjoint from the own keys of \<open>T\<close>, installed with the default options: every key of \<open>M\<close>
  other than the two marker keys and \<^verbatim>\<open>'__proto__'\<close> whose mapped value is neither \<^verbatim>\<open>null\<close> nor
  \<^verbatim>\<open>undefined\<close> reads on \<open>T\<close> as the mapped value, a function being called with the proxy
  target, the key and the receiver and its result returned; such a key mapped to
  \<^verbatim>\<open>undefined\<close> reads as \<^verbatim>\<open>undefined\<close> when no generator source yields it and
  \<^verbatim>\<open>Object.prototype\<close> has no property of that name; and every own property of \<open>T\<close> reads as
  its original value.
\<close>

theorem literal_mapping_is_readable:
  assumes literal: "src = PairArray M \<or> src = PlainObject M"
      and installed: "applyTo st (Ordinary ps P) src opts = Inr (inst, T')"
      and default: "resolve_options opts = default_options"
      and disjoint: "fst ` set M \<inter> fst ` set ps = {}"
  shows "(\<forall>K v. literal_value src K = Some v \<and> \<not> nullish v
              \<and> K \<noteq> ALL_key \<and> K \<noteq> GENFN \<and> K \<noteq> proto_key
            \<longrightarrow> js_get st' T' K T'
                  = (if is_fn v then invoke st' v (Ordinary [] P) K T' else Inr v))
       \<and> (\<forall>K. literal_value src K = Some VUndefined
              \<and> K \<noteq> ALL_key \<and> K \<noteq> GENFN \<and> K \<noteq> proto_key
              \<and> K \<notin> fst ` set (snapshot st' inst)
              \<and> Object_prototype_get st' K = None
            \<longrightarrow> js_get st' T' K T' = Inr VUndefined)
       \<and> (\<forall>k v. map_of ps k = Some v \<longrightarrow> js_get st' T' k T' = Inr v)"
proof -
  have opts: "options inst = default_options"
    using applyTo_Ordinary(2)[OF installed] default by simp
  have T': "T' = Ordinary ps (ProxyObj (Ordinary [] P) inst)"
    using applyTo_Ordinary(3)[OF installed] opts by (simp add: default_options_def)
  have no_except: "\<And>K. K \<notin> set (except (options inst))"
    by (simp add: opts default_options_def)
  have fresh: "\<And>K v. literal_value src K = Some v \<Longrightarrow> map_of ps K = None"
    using literal_value_keys[OF literal] disjoint by (auto simp: map_of_eq_None_iff)
  have read: "\<And>K v. literal_value src K = Some v \<Longrightarrow>
                js_get st' T' K T' = get_trap st' inst (Ordinary [] P) K T'"
    using fresh by (simp add: read_through_layer[OF T'])
  have one: "js_get st' T' K T' = (if is_fn v then invoke st' v (Ordinary [] P) K T' else Inr v)"
    if "literal_value src K = Some v" "\<not> nullish v" "K \<noteq> ALL_key" "K \<noteq> GENFN" "K \<noteq> proto_key"
    for K v
  proof -
    note c = literal_entry_claimed[OF literal installed that(1,3,4,5) no_except]
    have "prop_get st' (keyValueMap inst) K = v"
      using c(1) by (rule prop_get_own)
    then show ?thesis
      using that(2) c(2) opts
      by (simp add: read[OF that(1)] get_trap_claimed default_options_def Let_def)
  qed
  have two: "js_get st' T' K T' = Inr VUndefined"
    if "literal_value src K = Some VUndefined" "K \<noteq> ALL_key" "K \<noteq> GENFN" "K \<noteq> proto_key"
       "K \<notin> fst ` set (snapshot st' inst)" "Object_prototype_get st' K = None" for K
  proof -
    note c = literal_entry_claimed[OF literal installed that(1,2,3,4) no_except]
    have "get_trap st' inst (Ordinary [] P) K T' = Inr VUndefined"
      using c(2) c(1) _ that(5,6) by (rule nullish_entry_trap) simp
    then show ?thesis
      by (simp add: read[OF that(1)])
  qed
  have three: "js_get st' T' k T' = Inr v" if "map_of ps k = Some v" for k v
    using that by (simp add: T')
  show ?thesis
    using one two three by blast
qed

theorem literal_mapping_is_readable_witness:
  "(case applyTo (demo_store ''3000'') cocacola
          (PairArray [(StrKey ''type'', VStr ''drink''), (StrKey ''hasCalories'', VFn (UserFn 0))])
          None of
      Inl e \<Rightarrow> False
    | Inr (inst, T') \<Rightarrow>
        options inst = default_options
        \<and> js_get (demo_store ''3000'') T' (StrKey ''type'') T' = Inr (VStr ''drink'')
        \<and> js_get (demo_store ''3000'') T' (StrKey ''hasCalories'') T' = Inr (VBool True)
        \<and> js_get (demo_store ''3000'') T' (StrKey ''name'') T' = Inr (VStr ''Cocacola''))"
proof -
  let ?st = "demo_store ''3000''"
  let ?M = "[(StrKey ''type'', VStr ''drink''), (StrKey ''hasCalories'', VFn (UserFn 0))]"
  let ?ps = "[(StrKey ''name'', VStr ''Cocacola'')]"
  obtain inst T' where
    A: "applyTo ?st (Ordinary ?ps Object_prototype_obj) (PairArray ?M) None = Inr (inst, T')"
    by (simp add: eval_defs)
  have d: "resolve_options None = default_options"
    by (simp add: eval_defs)
  have dis: "fst ` set ?M \<inter> fst ` set ?ps = {}"
    by simp
  note t = literal_mapping_is_readable[OF disjI1[OF refl] A d dis, of ?st]
  have "js_get ?st T' (StrKey ''type'') T' = Inr (VStr ''drink'')"
    using t[THEN conjunct1, rule_format, of "StrKey ''type''" "VStr ''drink''"]
    by (simp add: eval_defs)
  moreover have "js_get ?st T' (StrKey ''hasCalories'') T' = Inr (VBool True)"
    using t[THEN conjunct1, rule_format, of "StrKey ''hasCalories''" "VFn (UserFn 0)"]
    by (simp add: eval_defs)
  moreover have "js_get ?st T' (StrKey ''name'') T' = Inr (VStr ''Cocacola'')"
    using t[THEN conjunct2, THEN conjunct2, rule_format, of "StrKey ''name''" "VStr ''Cocacola''"]
    by simp
  ultimately show ?thesis
    unfolding cocacola_def using A d applyTo_Ordinary(2)[OF A] by simp
qed

subsection \<open>C2: excluded keys\<close>

text \<open>
  The \<^verbatim>\<open>except\<close> list is documented as the properties to exclude from proxying, and the
  literal source honours it: an excluded key that the generator source does not yield is
  not a relevant key, the has trap answers for it with the native check on the original
  chain, and with \<^verbatim>\<open>fallback\<close> on and no user-supplied wildcard handler the read of \<^verbatim>\<open>T.K\<close> is
  the native lookup on the original object and its chain.
\<close>

lemma excluded_key_skips_literal_source:
  assumes installed: "applyTo st (Ordinary ps P) src opts = Inr (inst, T')"
      and excluded: "K \<in> set (except (options inst))"
      and not_yielded: "K \<notin> fst ` set (snapshot st' inst)"
  shows "K \<notin> set (fst (getRelevantKeys st' inst))"
    and "has_trap st' inst (if copyParentProto (options inst) then Ordinary [] P else P) K
           = js_has st' P K"
    and "fallback (options inst) \<Longrightarrow> source_keyValueMap st src = Inr filled \<Longrightarrow>
           \<not> is_fn (prop_get st filled ALL_key) \<Longrightarrow>
           js_get st' T' K T' = js_get st' (Ordinary ps P) K T'"
proof -
  show un: "K \<notin> set (fst (getRelevantKeys st' inst))"
    using excluded not_yielded by (simp add: relevant_keys_mem)
  show "has_trap st' inst (if copyParentProto (options inst) then Ordinary [] P else P) K
          = js_has st' P K"
    by (simp add: has_trap_unclaimed[OF un])
  show "js_get st' T' K T' = js_get st' (Ordinary ps P) K T'"
    if "fallback (options inst)" "source_keyValueMap st src = Inr filled"
       "\<not> is_fn (prop_get st filled ALL_key)"
    using fallback_reads_native[OF installed _ un that(2,3)] that(1)
      applyTo_Ordinary(2)[OF installed] by simp
qed

lemma excluded_literal_key_reads_native:
  "(case applyTo (demo_store ''3000'') cocacola
          (PlainObject [(StrKey ''prop1'', VStr ''value1''), (StrKey ''prop2'', VStr ''value2'')])
          (Some (except_keys [StrKey ''prop2''])) of
      Inl e \<Rightarrow> False
    | Inr (inst, T') \<Rightarrow>
        StrKey ''prop2'' \<in> set (except (options inst))
        \<and> fst (getRelevantKeys (demo_store ''3000'') inst) = [StrKey ''prop1'']
        \<and> js_get (demo_store ''3000'') T' (StrKey ''prop1'') T' = Inr (VStr ''value1'')
        \<and> js_get (demo_store ''3000'') T' (StrKey ''prop2'') T' = Inr VUndefined)"
  by (simp add: eval_defs)

text \<open>
  C2.  The claim fails on the code for a user-supplied wildcard handler: the \<^verbatim>\<open>except\<close> list
  only filters the own keys of \<^verbatim>\<open>keyValueMap\<close>, and a key that is not relevant goes to the
  wildcard handler, excluded or not.  With the wildcard handler of the test suite and
  \<^verbatim>\<open>{except: ['missing']}\<close>, the read of \<^verbatim>\<open>child.missing\<close> is the handler's
  \<^verbatim>\<open>'custom fallback'\<close>, where the native lookup on \<open>child\<close> gives \<^verbatim>\<open>undefined\<close>.
\<close>

theorem wildcard_answers_excluded_key:
  "js_get (demo_store ''3000'') child (StrKey ''missing'') child = Inr VUndefined
   \<and> (case applyTo (demo_store ''3000'') child (Callable (UserFn 1))
              (Some (except_keys [StrKey ''missing''])) of
        Inl e \<Rightarrow> False
      | Inr (inst, T') \<Rightarrow>
          StrKey ''missing'' \<in> set (except (options inst))
          \<and> StrKey ''missing'' \<notin> set (fst (getRelevantKeys (demo_store ''3000'') inst))
          \<and> js_get (demo_store ''3000'') T' (StrKey ''missing'') T' = Inr (VStr ''custom fallback''))"
  by (simp add: eval_defs)

subsection \<open>C3: fallback behind the wildcard handler\<close>

text \<open>
  C3.  With \<^verbatim>\<open>fallback\<close> on and a key \<open>K\<close> that the layer does not claim: when the source
  supplies a wildcard handler \<open>h\<close> and \<open>h\<close> returns \<^verbatim>\<open>undefined\<close> for \<open>K\<close>, reading \<^verbatim>\<open>T.K\<close> gives
  what the native lookup on the original object and its prototype chain gives
  (\<^verbatim>\<open>undefined\<close> when nothing defines \<open>K\<close>); when the source supplies no wildcard handler, the
  installed handler is exactly the bound \<^verbatim>\<open>Reflect.get\<close>, which is the inherited lookup, and
  the read is again the native one.  Here \<open>filled\<close> is \<^verbatim>\<open>keyValueMap\<close> as the source fills it,
  before the fallback step.
\<close>

theorem fallback_wildcard_reaches_native_lookup:
  assumes installed: "applyTo st (Ordinary ps P) src opts = Inr (inst, T')"
      and fb: "fallback (resolve_options opts)"
      and filled: "source_keyValueMap st src = Inr filled"
  shows "(\<forall>h. prop_get st filled ALL_key = VFn h
              \<and> K \<notin> set (fst (getRelevantKeys st' inst))
              \<and> call st' h (if copyParentProto (options inst) then Ordinary [] P else P) K T'
                  = Inr VUndefined
            \<longrightarrow> js_get st' T' K T' = js_get st' (Ordinary ps P) K T')
       \<and> (\<not> is_fn (prop_get st filled ALL_key)
            \<longrightarrow> prop_get st' (keyValueMap inst) ALL_key = VFn ReflectGet
              \<and> (\<forall>target property receiver.
                    call st' ReflectGet target property receiver
                      = js_get st' target property receiver)
              \<and> (K \<notin> set (fst (getRelevantKeys st' inst))
                    \<longrightarrow> js_get st' T' K T' = js_get st' (Ordinary ps P) K T'))"
proof (intro conjI allI impI)
  have kvm: "apply_fallback st True filled = Inr (keyValueMap inst)"
    using applyTo_Ordinary(1)[OF installed] filled fb by simp
  note T' = applyTo_Ordinary(3)[OF installed]
  let ?proto = "if copyParentProto (options inst) then Ordinary [] P else P"
  {
    fix h
    assume h: "prop_get st filled ALL_key = VFn h
               \<and> K \<notin> set (fst (getRelevantKeys st' inst))
               \<and> call st' h ?proto K T' = Inr VUndefined"
    from h have "prop_get st filled ALL_key = VFn h" ..
    then have "map_of (props_of (keyValueMap inst)) ALL_key = Some (VFn (FallbackArrow h))"
      using kvm by (rule apply_fallback_fn)
    then have "prop_get st' (keyValueMap inst) ALL_key = VFn (FallbackArrow h)"
      by (rule prop_get_own)
    then have "get_trap st' inst ?proto K T' = js_get st' P K T'"
      using h by (simp add: get_trap_unclaimed)
    then show "js_get st' T' K T' = js_get st' (Ordinary ps P) K T'"
      by (simp add: read_through_layer[OF T'] split: option.splits if_splits)
  }
  assume nofn: "\<not> is_fn (prop_get st filled ALL_key)"
  have "map_of (props_of (keyValueMap inst)) ALL_key = Some (VFn ReflectGet)"
    using nofn kvm by (rule apply_fallback_no_fn)
  then show handler: "prop_get st' (keyValueMap inst) ALL_key = VFn ReflectGet"
    by (rule prop_get_own)
  show "\<And>target property receiver.
          call st' ReflectGet target property receiver = js_get st' target property receiver"
    by simp
  assume "K \<notin> set (fst (getRelevantKeys st' inst))"
  then have "get_trap st' inst ?proto K T' = js_get st' P K T'"
    using handler by (simp add: get_trap_unclaimed)
  then show "js_get st' T' K T' = js_get st' (Ordinary ps P) K T'"
    by (simp add: read_through_layer[OF T'] split: option.splits if_splits)
qed

theorem fallback_wildcard_reaches_native_lookup_witness:
  "(case applyTo (demo_store ''3000'') child (Callable (UserFn 1)) None of
      Inl e \<Rightarrow> False
    | Inr (inst, T') \<Rightarrow>
        fallback (options inst)
        \<and> StrKey ''inherited'' \<notin> set (fst (getRelevantKeys (demo_store ''3000'') inst))
        \<and> js_get (demo_store ''3000'') T' (StrKey ''inherited'') T' = Inr (VStr ''from parent''))
   \<and> (case applyTo (demo_store ''3000'') child (PlainObject []) None of
      Inl e \<Rightarrow> False
    | Inr (inst, T') \<Rightarrow>
        prop_get (demo_store ''3000'') (keyValueMap inst) ALL_key = VFn ReflectGet
        \<and> js_get (demo_store ''3000'') T' (StrKey ''inherited'') T' = Inr (VStr ''from parent''))"
proof -
  let ?st = "demo_store ''3000''" and ?K = "StrKey ''inherited''"
  let ?P = "Ordinary [(StrKey ''inherited'', VStr ''from parent'')] Object_prototype_obj"
  let ?ps = "[(StrKey ''own'', VStr ''mine'')]"
  have native: "\<And>R. js_get ?st (Ordinary ?ps ?P) ?K R = Inr (VStr ''from parent'')"
    by simp
  obtain inst T' where A: "applyTo ?st (Ordinary ?ps ?P) (Callable (UserFn 1)) None = Inr (inst, T')"
    by (simp add: eval_defs)
  have fb: "fallback (resolve_options None)"
    by (simp add: resolve_options_def)
  have f1: "source_keyValueMap ?st (Callable (UserFn 1))
              = Inr \<lparr>props_of = [(StrKey ''*'', VFn (UserFn 1))], proto_of = ObjectProto\<rparr>"
    by (simp add: eval_defs)
  have kvm: "keyValueMap inst =
               \<lparr>props_of = [(StrKey ''*'', VFn (FallbackArrow (UserFn 1)))], proto_of = ObjectProto\<rparr>"
    using applyTo_Ordinary(1)[OF A] by (simp add: eval_defs)
  have un: "?K \<notin> set (fst (getRelevantKeys ?st inst))"
    by (simp add: relevant_keys_mem kvm eval_defs)
  have h: "prop_get ?st \<lparr>props_of = [(StrKey ''*'', VFn (UserFn 1))], proto_of = ObjectProto\<rparr> ALL_key
             = VFn (UserFn 1)"
    by (simp add: eval_defs)
  have r: "call ?st (UserFn 1) (if copyParentProto (options inst) then Ordinary [] ?P else ?P) ?K T'
             = Inr VUndefined"
    by (simp add: eval_defs)
  have one: "js_get ?st T' ?K T' = Inr (VStr ''from parent'')"
    using fallback_wildcard_reaches_native_lookup[OF A fb f1, THEN conjunct1, rule_format,
        OF conjI[OF h conjI[OF un r]]] native by simp
  obtain inst2 T2 where B: "applyTo ?st (Ordinary ?ps ?P) (PlainObject []) None = Inr (inst2, T2)"
    by (simp add: eval_defs)
  have f2: "source_keyValueMap ?st (PlainObject []) = Inr \<lparr>props_of = [], proto_of = ObjectProto\<rparr>"
    by (simp add: eval_defs)
  have kvm2: "keyValueMap inst2 = \<lparr>props_of = [(StrKey ''*'', VFn ReflectGet)], proto_of = ObjectProto\<rparr>"
    using applyTo_Ordinary(1)[OF B] by (simp add: eval_defs)
  have un2: "?K \<notin> set (fst (getRelevantKeys ?st inst2))"
    by (simp add: relevant_keys_mem kvm2 eval_defs)
  have nofn: "\<not> is_fn (prop_get ?st \<lparr>props_of = [], proto_of = ObjectProto\<rparr> ALL_key)"
    by (simp add: eval_defs)
  have two: "prop_get ?st (keyValueMap inst2) ALL_key = VFn ReflectGet
             \<and> js_get ?st T2 ?K T2 = Inr (VStr ''from parent'')"
    using fallback_wildcard_reaches_native_lookup[OF B fb f2, where K = ?K and st' = ?st,
        THEN conjunct2, rule_format, OF nofn] un2 native by simp
  show ?thesis
    unfolding child_def using A B one two un fb applyTo_Ordinary(2)[OF A] by simp
qed

subsection \<open>C4: a miss with fallback off\<close>

text \<open>
  The claim says that with \<^verbatim>\<open>fallback\<close> off and no wildcard handler a miss of the get trap
  lets the native lookup go on up the chain.  A proxy's get trap answers for the whole rest
  of the chain: \<open>child\<close> inherits \<^verbatim>\<open>inherited\<close> from its prototype, and after
  \<^verbatim>\<open>applyTo(child, {}, {fallback: false})\<close> the read of \<^verbatim>\<open>child.inherited\<close> is \<^verbatim>\<open>undefined\<close>.
\<close>

theorem no_fallback_inherited_value_unreadable:
  "js_get (demo_store ''3000'') child (StrKey ''inherited'') child = Inr (VStr ''from parent'')
   \<and> (case applyTo (demo_store ''3000'') child (PlainObject []) (Some no_fallback) of
        Inl e \<Rightarrow> False
      | Inr (inst, T') \<Rightarrow>
          StrKey ''inherited'' \<notin> set (fst (getRelevantKeys (demo_store ''3000'') inst))
          \<and> js_get (demo_store ''3000'') T' (StrKey ''inherited'') T' = Inr VUndefined)"
  by (simp add: eval_defs)

text \<open>
  C4 (amended).  With \<^verbatim>\<open>fallback\<close> off and no wildcard handler in the source, the get trap
  returns \<^verbatim>\<open>undefined\<close> for every key the layer does not claim, and this is the result of the
  read: \<^verbatim>\<open>T.K\<close> is the own property of \<open>T\<close> when there is one and \<^verbatim>\<open>undefined\<close> otherwise,
  whatever the original prototype chain defines for \<open>K\<close>.  Here \<open>filled\<close> is \<^verbatim>\<open>keyValueMap\<close> as
  the source fills it.
\<close>

theorem no_fallback_miss_reads_undefined:
  assumes installed: "applyTo st (Ordinary ps P) src opts = Inr (inst, T')"
      and off: "\<not> fallback (resolve_options opts)"
      and filled: "source_keyValueMap st src = Inr filled"
      and nowild: "\<not> truthy (prop_get st' filled ALL_key)"
      and unclaimed: "K \<notin> set (fst (getRelevantKeys st' inst))"
  shows "get_trap st' inst (if copyParentProto (options inst) then Ordinary [] P else P) K T'
           = Inr VUndefined
       \<and> js_get st' T' K T' = (case map_of ps K of Some v \<Rightarrow> Inr v | None \<Rightarrow> Inr VUndefined)"
proof -
  have "keyValueMap inst = filled"
    using applyTo_Ordinary(1)[OF installed] filled off by (simp add: apply_fallback_def)
  then have trap: "get_trap st' inst (if copyParentProto (options inst) then Ordinary [] P else P) K T'
                     = Inr VUndefined"
    using nowild unclaimed by (simp add: get_trap_unclaimed)
  then show ?thesis
    by (simp add: read_through_layer[OF applyTo_Ordinary(3)[OF installed]]
          split: option.splits if_splits)
qed

theorem no_fallback_miss_reads_undefined_witness:
  "(case applyTo (demo_store ''3000'') child (PlainObject []) (Some no_fallback) of
      Inl e \<Rightarrow> False
    | Inr (inst, T') \<Rightarrow>
        \<not> fallback (options inst)
        \<and> \<not> truthy (prop_get (demo_store ''3000'') (keyValueMap inst) ALL_key)
        \<and> StrKey ''inherited'' \<notin> set (fst (getRelevantKeys (demo_store ''3000'') inst))
        \<and> js_get (demo_store ''3000'') T' (StrKey ''inherited'') T' = Inr VUndefined
        \<and> js_get (demo_store ''3000'') T' (StrKey ''own'') T' = Inr (VStr ''mine''))"
proof -
  let ?st = "demo_store ''3000''"
  let ?P = "Ordinary [(StrKey ''inherited'', VStr ''from parent'')] Object_prototype_obj"
  let ?ps = "[(StrKey ''own'', VStr ''mine'')]"
  let ?empty = "\<lparr>props_of = [], proto_of = ObjectProto\<rparr>"
  obtain inst T' where
    A: "applyTo ?st (Ordinary ?ps ?P) (PlainObject []) (Some no_fallback) = Inr (inst, T')"
    by (simp add: eval_defs)
  have off: "\<not> fallback (resolve_options (Some no_fallback))"
    by (simp add: eval_defs)
  have filled: "source_keyValueMap ?st (PlainObject []) = Inr ?empty"
    by (simp add: eval_defs)
  have nowild: "\<not> truthy (prop_get ?st ?empty ALL_key)"
    by (simp add: eval_defs)
  have kvm: "keyValueMap inst = ?empty"
    using applyTo_Ordinary(1)[OF A] by (simp add: eval_defs)
  have un: "\<And>K. K \<notin> set (fst (getRelevantKeys ?st inst))"
    by (simp add: relevant_keys_mem kvm eval_defs)
  have "js_get ?st T' (StrKey ''inherited'') T' = Inr VUndefined"
    using no_fallback_miss_reads_undefined[OF A off filled nowild un, of "StrKey ''inherited''"]
    by simp
  moreover have "js_get ?st T' (StrKey ''own'') T' = Inr (VStr ''mine'')"
    using no_fallback_miss_reads_undefined[OF A off filled nowild un, of "StrKey ''own''"]
    by simp
  moreover have "\<not> truthy (prop_get ?st (keyValueMap inst) ALL_key)"
    by (simp add: kvm eval_defs)
  ultimately show ?thesis
    unfolding child_def using A un off applyTo_Ordinary(2)[OF A] by simp
qed

subsection \<open>C5: a live iterable source\<close>

text \<open>
  The relevant keys are computed again by every trap, and a generator source is iterated
  again each time: with an iterable whose \<^verbatim>\<open>Symbol.iterator\<close> method is a generator function
  over the live entries, the read of \<^verbatim>\<open>PORT\<close> follows the entries, and so do the has and
  the ownKeys trap (\<open>generator_iterable_read\<close> is the general statement for the get trap).
\<close>

lemma generator_iterable_is_read_live:
  "(case applyTo (demo_store ''3000'') cocacola (Iterable (UserGenFn 3) []) None of
      Inl e \<Rightarrow> False
    | Inr (inst, T') \<Rightarrow>
        js_get (demo_store ''3000'') T' (StrKey ''PORT'') T' = Inr (VStr ''3000'')
        \<and> js_get (demo_store ''4000'') T' (StrKey ''PORT'') T' = Inr (VStr ''4000'')
        \<and> js_has (demo_store ''4000'') T' (StrKey ''PORT'')
        \<and> ownKeys_trap (demo_store ''4000'') inst (Ordinary [] Object_prototype_obj) = [StrKey ''PORT''])"
  by (simp add: eval_defs)

text \<open>
  C5.  The claim fails on the code for an iterable such as a \<^verbatim>\<open>Map\<close>, which the examples of
  the repository install: its \<^verbatim>\<open>Symbol.iterator\<close> method is not a generator function, the
  bound method that \<^verbatim>\<open>applyTo\<close> stores under \<^verbatim>\<open>'**'\<close> fails \<^verbatim>\<open>is.genFn\<close>, and the source is
  never iterated.  With the entries \<^verbatim>\<open>[['PORT', '3000']]\<close> at installation no key is
  relevant and \<^verbatim>\<open>PORT\<close> reads as \<^verbatim>\<open>undefined\<close>, before and after the entries change to
  \<^verbatim>\<open>[['PORT', '4000']]\<close>.
\<close>

theorem map_source_is_never_iterated:
  "(case applyTo (demo_store ''3000'') cocacola (Iterable (UserFn 6) []) None of
      Inl e \<Rightarrow> False
    | Inr (inst, T') \<Rightarrow>
        spread_call (demo_store ''3000'') (UserFn 6) = [(StrKey ''PORT'', VStr ''3000'')]
        \<and> keyValueMap inst =
            \<lparr>props_of = [(GENFN, VFn (Bound (UserFn 6))), (ALL_key, VFn ReflectGet)],
             proto_of = ObjectProto\<rparr>
        \<and> fst (getRelevantKeys (demo_store ''3000'') inst) = []
        \<and> js_get (demo_store ''3000'') T' (StrKey ''PORT'') T' = Inr VUndefined
        \<and> js_get (demo_store ''4000'') T' (StrKey ''PORT'') T' = Inr VUndefined)"
  by (simp add: eval_defs)

subsection \<open>C6: excluded keys that the generator source yields\<close>

text \<open>
  The keys of the generator snapshot are appended after the \<^verbatim>\<open>except\<close> filter has run.  For
  an iterable whose generator method yields a string key (\<open>generator_iterable_read\<close>), the
  key reads as the yielded value whatever \<^verbatim>\<open>except\<close> lists: with \<^verbatim>\<open>{except: ['PORT']}\<close> the
  key \<^verbatim>\<open>PORT\<close> of the live iterable is still relevant and still reads as the port.
\<close>

lemma excluded_generator_key_is_served:
  "(case applyTo (demo_store ''3000'') cocacola (Iterable (UserGenFn 3) [])
          (Some (except_keys [StrKey ''PORT''])) of
      Inl e \<Rightarrow> False
    | Inr (inst, T') \<Rightarrow>
        StrKey ''PORT'' \<in> set (except (options inst))
        \<and> spread_call (demo_store ''3000'') (UserGenFn 3) = [(StrKey ''PORT'', VStr ''3000'')]
        \<and> fst (getRelevantKeys (demo_store ''3000'') inst) = [StrKey ''PORT'']
        \<and> js_get (demo_store ''3000'') T' (StrKey ''PORT'') T' = Inr (VStr ''3000''))"
  by (simp add: eval_defs)

text \<open>
  C6.  The claim fails on the code when \<^verbatim>\<open>keyValueMap\<close> itself has an entry for the excluded
  key.  The \<^verbatim>\<open>except\<close> filter drops the key from the own keys of \<^verbatim>\<open>keyValueMap\<close>, the
  generator's keys bring it back, and the get trap then reads \<^verbatim>\<open>keyValueMap[property]\<close>
  first: with the mapping \<^verbatim>\<open>{a: 'lit', '**': function* () { yield ['a', 'gen'] }}\<close> and
  \<^verbatim>\<open>{except: ['a']}\<close>, the generator yields \<^verbatim>\<open>['a', 'gen']\<close>, the key \<^verbatim>\<open>a\<close> is relevant, and
  \<^verbatim>\<open>cocacola.a\<close> reads as the excluded literal \<^verbatim>\<open>'lit'\<close>, not as the yielded \<^verbatim>\<open>'gen'\<close>.
\<close>

theorem excluded_literal_value_wins_over_generator:
  "(case applyTo (demo_store ''3000'') cocacola
          (PlainObject [(StrKey ''a'', VStr ''lit''), (StrKey ''**'', VFn (UserGenFn 4))])
          (Some (except_keys [StrKey ''a''])) of
      Inl e \<Rightarrow> False
    | Inr (inst, T') \<Rightarrow>
        StrKey ''a'' \<in> set (except (options inst))
        \<and> spread_call (demo_store ''3000'') (UserGenFn 4) = [(StrKey ''a'', VStr ''gen'')]
        \<and> literal_keys inst = []
        \<and> fst (getRelevantKeys (demo_store ''3000'') inst) = [StrKey ''a'']
        \<and> js_get (demo_store ''3000'') T' (StrKey ''a'') T' = Inr (VStr ''lit''))"
  by (simp add: eval_defs)

subsection \<open>C7: the marker keys\<close>

text \<open>
  The marker keys are filtered out of the own keys of \<^verbatim>\<open>keyValueMap\<close>, so that a literal
  mapping or a wildcard handler never makes them relevant; a marker key is relevant exactly
  when the generator snapshot has it (\<open>marker_keys_not_literal\<close>,
  \<open>marker_keys_only_from_generator\<close>).
\<close>

text \<open>
  C7.  The keys of the generator snapshot are appended after the filter for the marker
  keys.  With an iterable whose generator method yields \<^verbatim>\<open>['*', 'x']\<close>, installed with the
  default options, the marker key \<^verbatim>\<open>'*'\<close> is a relevant key, the ownKeys trap lists it and the
  has trap reports it, though the target's own chain has no such property; installed with
  \<^verbatim>\<open>{fallback: false}\<close>, reading it also returns the mapped \<^verbatim>\<open>'x'\<close>.
\<close>

theorem generator_yields_marker_key:
  "(case applyTo (demo_store ''3000'') cocacola (Iterable (UserGenFn 5) []) None of
      Inl e \<Rightarrow> False
    | Inr (inst, T') \<Rightarrow>
        fst (getRelevantKeys (demo_store ''3000'') inst) = [ALL_key]
        \<and> ownKeys_trap (demo_store ''3000'') inst (Ordinary [] Object_prototype_obj) = [ALL_key]
        \<and> has_trap (demo_store ''3000'') inst (Ordinary [] Object_prototype_obj) ALL_key
        \<and> js_has (demo_store ''3000'') T' ALL_key)
   \<and> \<not> js_has (demo_store ''3000'') cocacola ALL_key
   \<and> (case applyTo (demo_store ''3000'') cocacola (Iterable (UserGenFn 5) []) (Some no_fallback) of
      Inl e \<Rightarrow> False
    | Inr (inst, T') \<Rightarrow>
        fst (getRelevantKeys (demo_store ''3000'') inst) = [ALL_key]
        \<and> js_get (demo_store ''3000'') T' ALL_key T' = Inr (VStr ''x''))"
  by (simp add: eval_defs)

subsection \<open>C8: the relevant keys and their enumeration\<close>

text \<open>
  For an installed layer the relevant-key list is the literal keys (the own keys of
  \<^verbatim>\<open>keyValueMap\<close> in their enumeration order, without the excluded and the marker keys)
  followed by the string keys of the generator snapshot.  Each of the two parts is free of
  duplicates, and when no key occurs in both, enumerating the own keys of the layer that
  \<^verbatim>\<open>applyTo\<close> has put under the target gives exactly this list.
\<close>

lemma relevant_keys_literal_then_generator:
  assumes installed: "applyTo st (Ordinary ps P) src opts = Inr (inst, T')"
  shows "fst (getRelevantKeys st' inst) = literal_keys inst @ generator_keys st' inst"
    and "distinct (literal_keys inst)"
    and "distinct (generator_keys st' inst)"
    and "getPrototypeOf T'
           = Inr (ProxyObj (if copyParentProto (options inst) then Ordinary [] P else P) inst)"
    and "set (literal_keys inst) \<inter> set (generator_keys st' inst) = {} \<Longrightarrow>
           js_ownKeys st' (ProxyObj (if copyParentProto (options inst) then Ordinary [] P else P) inst)
             = Inr (literal_keys inst @ generator_keys st' inst)"
proof -
  show parts: "fst (getRelevantKeys st' inst) = literal_keys inst @ generator_keys st' inst"
    by (rule relevant_keys_parts)
  show lit: "distinct (literal_keys inst)"
    using distinct_installed_keyValueMap[OF installed] by (rule distinct_literal_keys)
  show gen: "distinct (generator_keys st' inst)"
    by (rule distinct_generator_keys)
  show "getPrototypeOf T'
          = Inr (ProxyObj (if copyParentProto (options inst) then Ordinary [] P else P) inst)"
    by (subst applyTo_Ordinary(3)[OF installed]) simp
  show "js_ownKeys st' (ProxyObj (if copyParentProto (options inst) then Ordinary [] P else P) inst)
          = Inr (literal_keys inst @ generator_keys st' inst)"
    if "set (literal_keys inst) \<inter> set (generator_keys st' inst) = {}"
    using lit gen that by (simp add: ownKeys_trap_def parts)
qed

text \<open>
  C8.  The claim fails on the code for a key that occurs in both parts: the list is a
  concatenation and nothing removes duplicates.  With the mapping
  \<^verbatim>\<open>{a: 1, '**': function* () { yield ['a', 'gen'] }}\<close> the key \<^verbatim>\<open>a\<close> is a literal key and a
  generator key, the relevant-key list is \<^verbatim>\<open>['a', 'a']\<close>, and enumerating the own keys of the
  layer under \<open>cocacola\<close> does not return: the engine rejects the result of the ownKeys trap
  with a \<^verbatim>\<open>TypeError\<close>.
\<close>

theorem key_in_both_sources_is_listed_twice:
  "(case applyTo (demo_store ''3000'') cocacola
          (PlainObject [(StrKey ''a'', VNum 1), (StrKey ''**'', VFn (UserGenFn 4))]) None of
      Inl e \<Rightarrow> False
    | Inr (inst, T') \<Rightarrow>
        literal_keys inst = [StrKey ''a'']
        \<and> generator_keys (demo_store ''3000'') inst = [StrKey ''a'']
        \<and> fst (getRelevantKeys (demo_store ''3000'') inst) = [StrKey ''a'', StrKey ''a'']
        \<and> (case getPrototypeOf T' of
              Inl e \<Rightarrow> False
            | Inr layer \<Rightarrow>
                layer = ProxyObj (Ordinary [] Object_prototype_obj) inst
                \<and> js_ownKeys (demo_store ''3000'') layer = Inl TypeError))"
proof -
  let ?st = "demo_store ''3000''"
  let ?src = "PlainObject [(StrKey ''a'', VNum 1), (StrKey ''**'', VFn (UserGenFn 4))]"
  let ?ps = "[(StrKey ''name'', VStr ''Cocacola'')]"
  obtain inst T' where A: "applyTo ?st (Ordinary ?ps Object_prototype_obj) ?src None = Inr (inst, T')"
    by (simp add: eval_defs)
  have opts: "options inst = default_options"
    using applyTo_Ordinary(2)[OF A] by (simp add: eval_defs)
  have kvm: "keyValueMap inst =
               \<lparr>props_of = [(StrKey ''a'', VNum 1), (StrKey ''**'', VFn (UserGenFn 4)),
                            (StrKey ''*'', VFn ReflectGet)],
                proto_of = ObjectProto\<rparr>"
    using applyTo_Ordinary(1)[OF A] by (simp add: eval_defs)
  have lit: "literal_keys inst = [StrKey ''a'']"
    by (simp add: kvm opts eval_defs)
  have gen: "generator_keys ?st inst = [StrKey ''a'']"
    by (simp add: kvm opts eval_defs)
  have keys: "fst (getRelevantKeys ?st inst) = [StrKey ''a'', StrKey ''a'']"
    using lit gen by (simp add: relevant_keys_parts)
  have layer: "getPrototypeOf T' = Inr (ProxyObj (Ordinary [] Object_prototype_obj) inst)"
    by (subst applyTo_Ordinary(3)[OF A]) (simp add: opts default_options_def)
  have "js_ownKeys ?st (ProxyObj (Ordinary [] Object_prototype_obj) inst) = Inl TypeError"
    by (simp add: keys ownKeys_trap_def)
  then show ?thesis
    unfolding cocacola_def using A lit gen keys layer by simp
qed

subsection \<open>C9: a mapped null reads as undefined\<close>

text \<open>
  For a literal source and a key \<open>K\<close> whose mapped value is \<^verbatim>\<open>null\<close>, where \<open>K\<close> is not yielded
  by the generator source, is neither a marker key nor \<^verbatim>\<open>'__proto__'\<close> nor listed in
  \<^verbatim>\<open>except\<close>, is not the name of a property of \<^verbatim>\<open>Object.prototype\<close> and is not an own key of
  \<open>T\<close>: reading \<^verbatim>\<open>T.K\<close> after installation returns \<^verbatim>\<open>undefined\<close>, not \<^verbatim>\<open>null\<close>, as the test
  suite expects of \<^verbatim>\<open>nullProp\<close>.
\<close>

lemma null_entry_reads_undefined:
  assumes literal: "src = PairArray M \<or> src = PlainObject M"
      and installed: "applyTo st (Ordinary ps P) src opts = Inr (inst, T')"
      and null: "literal_value src K = Some VNull"
      and not_yielded: "K \<notin> fst ` set (snapshot st' inst)"
      and plain: "K \<noteq> ALL_key" "K \<noteq> GENFN" "K \<noteq> proto_key" "K \<notin> set (except (options inst))"
      and not_builtin: "Object_prototype_get st' K = None"
      and not_own: "map_of ps K = None"
  shows "js_get st' T' K T' = Inr VUndefined"
proof -
  note c = literal_entry_claimed[OF literal installed null plain]
  have "get_trap st' inst (if copyParentProto (options inst) then Ordinary [] P else P) K T'
          = Inr VUndefined"
    using c(2) c(1) _ not_yielded not_builtin by (rule nullish_entry_trap) simp
  then show ?thesis
    using not_own by (simp add: read_through_layer[OF applyTo_Ordinary(3)[OF installed]])
qed

lemma null_entry_of_the_tests_reads_undefined:
  "(case applyTo (demo_store ''3000'') child
          (PlainObject [(StrKey ''nullProp'', VNull), (StrKey ''undefinedProp'', VUndefined)]) None of
      Inl e \<Rightarrow> False
    | Inr (inst, T') \<Rightarrow>
        js_get (demo_store ''3000'') T' (StrKey ''nullProp'') T' = Inr VUndefined
        \<and> js_get (demo_store ''3000'') T' (StrKey ''undefinedProp'') T' = Inr VUndefined)"
  by (simp add: eval_defs)

text \<open>
  C9.  The claim fails on the code for a key that names a property of \<^verbatim>\<open>Object.prototype\<close>.
  The get trap replaces the \<^verbatim>\<open>null\<close> by \<^verbatim>\<open>genObject[property]\<close>, and \<^verbatim>\<open>genObject\<close> is an ordinary
  object that inherits from \<^verbatim>\<open>Object.prototype\<close>.  With an empty generator snapshot, after
  \<^verbatim>\<open>applyTo(cocacola, {toString: null})\<close> the value found is \<^verbatim>\<open>Object.prototype.toString\<close>,
  which \<^verbatim>\<open>evalFns\<close> calls, and \<^verbatim>\<open>cocacola.toString\<close> reads as the string
  \<^verbatim>\<open>'[object Undefined]'\<close>; after \<^verbatim>\<open>applyTo(cocacola, {valueOf: null})\<close> the call of
  \<^verbatim>\<open>Object.prototype.valueOf\<close> throws and the read of \<^verbatim>\<open>cocacola.valueOf\<close> is a \<^verbatim>\<open>TypeError\<close>.
\<close>

theorem null_entry_named_toString_reads_a_string:
  "(case applyTo (demo_store ''3000'') cocacola (PlainObject [(StrKey ''toString'', VNull)]) None of
      Inl e \<Rightarrow> False
    | Inr (inst, T') \<Rightarrow>
        snapshot (demo_store ''3000'') inst = []
        \<and> js_get (demo_store ''3000'') T' (StrKey ''toString'') T' = Inr (VStr ''[object Undefined]''))
   \<and> (case applyTo (demo_store ''3000'') cocacola (PlainObject [(StrKey ''valueOf'', VNull)]) None of
      Inl e \<Rightarrow> False
    | Inr (inst, T') \<Rightarrow>
        snapshot (demo_store ''3000'') inst = []
        \<and> js_get (demo_store ''3000'') T' (StrKey ''valueOf'') T' = Inl TypeError)"
  by (simp add: eval_defs)

subsection \<open>C10: a nullish entry is claimed and shadows the chain\<close>

text \<open>
  The claim says that a key with an \<^verbatim>\<open>undefined\<close> or \<^verbatim>\<open>null\<close> entry reads as \<^verbatim>\<open>undefined\<close>.
  The nullish entry gives way to the generator snapshot: with the mapping
  \<^verbatim>\<open>{a: undefined, '**': function* () { yield ['a', 'gen'] }}\<close> the read of \<^verbatim>\<open>cocacola.a\<close> is
  \<^verbatim>\<open>'gen'\<close>.
\<close>

theorem undefined_entry_reads_generator_value:
  "(case applyTo (demo_store ''3000'') cocacola
          (PlainObject [(StrKey ''a'', VUndefined), (StrKey ''**'', VFn (UserGenFn 4))]) None of
      Inl e \<Rightarrow> False
    | Inr (inst, T') \<Rightarrow>
        js_get (demo_store ''3000'') T' (StrKey ''a'') T' = Inr (VStr ''gen''))
   \<and> literal_value (PlainObject [(StrKey ''a'', VUndefined), (StrKey ''**'', VFn (UserGenFn 4))])
        (StrKey ''a'') = Some VUndefined"
  by (simp add: eval_defs)

text \<open>
  C10 (amended).  For a literal source and a key \<open>K\<close> whose mapped value is \<^verbatim>\<open>undefined\<close> or
  \<^verbatim>\<open>null\<close>, where \<open>K\<close> is neither a marker key nor \<^verbatim>\<open>'__proto__'\<close> nor listed in \<^verbatim>\<open>except\<close>: the
  layer claims \<open>K\<close>, so the existence check on \<open>T\<close> reports it and the ownKeys trap lists it;
  and when moreover the generator source does not yield \<open>K\<close>, \<^verbatim>\<open>Object.prototype\<close> has no
  property named \<open>K\<close> and \<open>K\<close> is not an own key of \<open>T\<close>, reading \<^verbatim>\<open>T.K\<close> returns \<^verbatim>\<open>undefined\<close>
  whatever the wildcard handler and the original prototype chain would answer, so that a
  value for \<open>K\<close> deeper in the original chain is shadowed.
\<close>

theorem nullish_entry_is_claimed_and_shadows:
  assumes literal: "src = PairArray M \<or> src = PlainObject M"
      and installed: "applyTo st (Ordinary ps P) src opts = Inr (inst, T')"
      and entry: "literal_value src K = Some v" "nullish v"
      and plain: "K \<noteq> ALL_key" "K \<noteq> GENFN" "K \<noteq> proto_key" "K \<notin> set (except (options inst))"
  shows "js_has st' T' K
       \<and> K \<in> set (ownKeys_trap st' inst (if copyParentProto (options inst) then Ordinary [] P else P))
       \<and> (K \<notin> fst ` set (snapshot st' inst) \<and> Object_prototype_get st' K = None
            \<and> map_of ps K = None
            \<longrightarrow> js_get st' T' K T' = Inr VUndefined)"
proof -
  let ?proto = "if copyParentProto (options inst) then Ordinary [] P else P"
  note T' = applyTo_Ordinary(3)[OF installed]
  note c = literal_entry_claimed[OF literal installed entry(1) plain]
  have "has_trap st' inst ?proto K"
    using c(2) by (rule has_trap_claimed)
  then have has: "js_has st' T' K"
    by (subst T') simp
  have own: "K \<in> set (ownKeys_trap st' inst ?proto)"
    using c(2) by (simp add: ownKeys_trap_def)
  have "js_get st' T' K T' = Inr VUndefined"
    if "K \<notin> fst ` set (snapshot st' inst)" "Object_prototype_get st' K = None"
       "map_of ps K = None"
  proof -
    have "get_trap st' inst ?proto K T' = Inr VUndefined"
      using c(2) c(1) entry(2) that(1,2) by (rule nullish_entry_trap)
    then show ?thesis
      using that(3) by (simp add: read_through_layer[OF T'])
  qed
  then show ?thesis
    using has own by simp
qed

theorem nullish_entry_is_claimed_and_shadows_witness:
  "js_get (demo_store ''3000'') child (StrKey ''inherited'') child = Inr (VStr ''from parent'')
   \<and> (case applyTo (demo_store ''3000'') child (PlainObject [(StrKey ''inherited'', VUndefined)]) None of
        Inl e \<Rightarrow> False
      | Inr (inst, T') \<Rightarrow>
          js_has (demo_store ''3000'') T' (StrKey ''inherited'')
          \<and> StrKey ''inherited'' \<in> set (ownKeys_trap (demo_store ''3000'') inst
                (Ordinary [] (Ordinary [(StrKey ''inherited'', VStr ''from parent'')] Object_prototype_obj)))
          \<and> js_get (demo_store ''3000'') T' (StrKey ''inherited'') T' = Inr VUndefined)"
proof -
  let ?st = "demo_store ''3000''" and ?K = "StrKey ''inherited''"
  let ?M = "[(StrKey ''inherited'', VUndefined)]"
  let ?P = "Ordinary [(StrKey ''inherited'', VStr ''from parent'')] Object_prototype_obj"
  let ?ps = "[(StrKey ''own'', VStr ''mine'')]"
  obtain inst T' where A: "applyTo ?st (Ordinary ?ps ?P) (PlainObject ?M) None = Inr (inst, T')"
    by (simp add: eval_defs)
  have opts: "options inst = default_options"
    using applyTo_Ordinary(2)[OF A] by (simp add: eval_defs)
  have kvm: "keyValueMap inst =
               \<lparr>props_of = [(StrKey ''inherited'', VUndefined), (StrKey ''*'', VFn ReflectGet)],
                proto_of = ObjectProto\<rparr>"
    using applyTo_Ordinary(1)[OF A] by (simp add: eval_defs)
  have ny: "?K \<notin> fst ` set (snapshot ?st inst)"
    by (simp add: kvm eval_defs)
  have nb: "Object_prototype_get ?st ?K = None"
    by (simp add: eval_defs)
  have ex: "?K \<notin> set (except (options inst))"
    by (simp add: opts default_options_def)
  have t: "js_has ?st T' ?K
       \<and> ?K \<in> set (ownKeys_trap ?st inst (if copyParentProto (options inst) then Ordinary [] ?P else ?P))
       \<and> (?K \<notin> fst ` set (snapshot ?st inst) \<and> Object_prototype_get ?st ?K = None
            \<and> map_of ?ps ?K = None
            \<longrightarrow> js_get ?st T' ?K T' = Inr VUndefined)"
    by (rule nullish_entry_is_claimed_and_shadows[where v = VUndefined,
               OF disjI2[OF refl] A _ _ _ _ _ ex])
       (simp_all add: eval_defs)
  have "js_get ?st T' ?K T' = Inr VUndefined"
    using t ny nb by simp
  then show ?thesis
    unfolding child_def using A t opts by (simp add: default_options_def)
qed

end
